theory Spec2Isabelle
  imports Complex_Main "HOL-Library.Word" "HOL-Library.Multiset"
begin

unbundle bit_operations_syntax

section \<open>Points, configuration and the object store\<close>

text \<open>
  A waveform point is the JavaScript object \<^verbatim>\<open>{ time, amplitude }\<close>. The record is
  polymorphic in the number representation: the editing, geometry and synthesis code is
  modelled over \<^typ>\<open>real\<close> (finite numbers, rounding abstracted), the JSON import over
  a number type that also has NaN and the infinities.
\<close>

record 'n point =
  time :: 'n
  amplitude :: 'n

text \<open>The fields of \<^verbatim>\<open>CONFIG\<close> (config.js) that the modelled code reads.\<close>

record config =
  MAX_UNDO :: nat
  DEFAULT_DURATION :: real
  DEFAULT_ZOOM :: real

definition DEFAULT_CONFIG :: config where
  "DEFAULT_CONFIG = \<lparr>MAX_UNDO = 50, DEFAULT_DURATION = 10, DEFAULT_ZOOM = 10\<rparr>"

text \<open>
  Points are shared by reference between \<^verbatim>\<open>this.points\<close>, the selection set and the
  dragged point, so the model keeps an explicit object store: a reference is a natural
  number, \<open>heap\<close> maps it to the object's current fields and \<open>nextRef\<close> is the next
  unused reference. The remaining fields are those of \<^verbatim>\<open>class DataModel\<close>
  (dataModel.js). A JavaScript \<^verbatim>\<open>Set\<close> is a list without duplicates in insertion
  order; the undo and redo stacks are arrays whose last element is the top, and a
  snapshot (\<^verbatim>\<open>JSON.stringify(this.points)\<close>) is the list of the points' values.
\<close>

type_synonym ref = nat

record DataModel =
  heap :: "ref \<Rightarrow> real point"
  nextRef :: ref
  points :: "ref list"
  selectedPoints :: "ref list"
  selectedPoint :: "ref option"
  copiedPoints :: "real point list"
  undoStack :: "real point list list"
  redoStack :: "real point list list"
  duration :: real
  zoom :: real
  pan :: real

text \<open>\<^verbatim>\<open>constructor()\<close>: \<^verbatim>\<open>CONFIG.DEFAULT_DURATION || 10.0\<close> falls back on a zero.\<close>

definition new_DataModel :: "config \<Rightarrow> DataModel" where
  "new_DataModel cfg =
     \<lparr>heap = (\<lambda>_. \<lparr>time = 0, amplitude = 0\<rparr>), nextRef = 0,
      points = [], selectedPoints = [], selectedPoint = None, copiedPoints = [],
      undoStack = [], redoStack = [],
      duration = (if DEFAULT_DURATION cfg = 0 then 10 else DEFAULT_DURATION cfg),
      zoom = (if DEFAULT_ZOOM cfg = 0 then 10 else DEFAULT_ZOOM cfg),
      pan = 0\<rparr>"

text \<open>Creating fresh objects, one per value, in order (an object literal, or \<^verbatim>\<open>JSON.parse\<close>).\<close>

fun newObjects :: "real point list \<Rightarrow> DataModel \<Rightarrow> ref list \<times> DataModel" where
  "newObjects [] m = ([], m)"
| "newObjects (v # vs) m =
     (let r = nextRef m;
          (rs, m') = newObjects vs (m\<lparr>heap := (heap m)(r := v), nextRef := Suc r\<rparr>)
      in (r # rs, m'))"

text \<open>\<^verbatim>\<open>JSON.stringify(this.points)\<close>: the values of the sequence, in order.\<close>

definition snapshot :: "DataModel \<Rightarrow> real point list" where
  "snapshot m = map (heap m) (points m)"

text \<open>\<^verbatim>\<open>this.points.sort((a, b) => a.time - b.time)\<close>: a stable sort by time.\<close>

definition sortPoints :: "DataModel \<Rightarrow> DataModel" where
  "sortPoints m = m\<lparr>points := sort_key (\<lambda>r. time (heap m r)) (points m)\<rparr>"

section \<open>DataModel: history\<close>

text \<open>\<^verbatim>\<open>const maxUndo = CONFIG.MAX_UNDO || 20\<close>.\<close>

definition maxUndo :: "config \<Rightarrow> nat" where
  "maxUndo cfg = (if MAX_UNDO cfg = 0 then 20 else MAX_UNDO cfg)"

definition saveState :: "config \<Rightarrow> DataModel \<Rightarrow> DataModel" where
  "saveState cfg m =
     (let pushed = undoStack m @ [snapshot m];
          kept = (if length pushed > maxUndo cfg then tl pushed else pushed)
      in m\<lparr>undoStack := kept, redoStack := []\<rparr>)"

definition undo :: "DataModel \<Rightarrow> bool \<times> DataModel" where
  "undo m =
     (if undoStack m = [] then (False, m)
      else
        let m1 = m\<lparr>redoStack := redoStack m @ [snapshot m]\<rparr>;
            (rs, m2) = newObjects (last (undoStack m1)) m1
        in (True, m2\<lparr>points := rs, undoStack := butlast (undoStack m2)\<rparr>))"

definition redo :: "DataModel \<Rightarrow> bool \<times> DataModel" where
  "redo m =
     (if redoStack m = [] then (False, m)
      else
        let m1 = m\<lparr>undoStack := undoStack m @ [snapshot m]\<rparr>;
            (rs, m2) = newObjects (last (redoStack m1)) m1
        in (True, m2\<lparr>points := rs, redoStack := butlast (redoStack m2)\<rparr>))"

section \<open>DataModel: points, selection, clipboard, loading\<close>

definition addPoint :: "config \<Rightarrow> real \<Rightarrow> real \<Rightarrow> DataModel \<Rightarrow> DataModel" where
  "addPoint cfg t a m =
     (let m1 = saveState cfg m;
          (rs, m2) = newObjects [\<lparr>time = t, amplitude = a\<rparr>] m1
      in sortPoints (m2\<lparr>points := points m2 @ rs\<rparr>))"

definition removePoints :: "config \<Rightarrow> ref list \<Rightarrow> DataModel \<Rightarrow> DataModel" where
  "removePoints cfg pointsToRemove m =
     (let m1 = saveState cfg m
      in m1\<lparr>points := filter (\<lambda>p. p \<notin> set pointsToRemove) (points m1)\<rparr>)"

definition updatePoint :: "ref \<Rightarrow> real \<Rightarrow> real \<Rightarrow> DataModel \<Rightarrow> DataModel" where
  "updatePoint p newTime newAmplitude m =
     sortPoints (m\<lparr>heap := (heap m)(p := \<lparr>time = newTime, amplitude = newAmplitude\<rparr>)\<rparr>)"

definition selectPoint :: "ref \<Rightarrow> DataModel \<Rightarrow> DataModel" where
  "selectPoint p m = m\<lparr>selectedPoints := [], selectedPoint := Some p\<rparr>"

text \<open>\<^verbatim>\<open>new Set(this.points)\<close> keeps the first occurrence of each object.\<close>

definition selectAllPoints :: "DataModel \<Rightarrow> DataModel" where
  "selectAllPoints m = m\<lparr>selectedPoints := rev (remdups (rev (points m))), selectedPoint := None\<rparr>"

definition clearSelection :: "DataModel \<Rightarrow> DataModel" where
  "clearSelection m = m\<lparr>selectedPoints := [], selectedPoint := None\<rparr>"

definition copySelected :: "DataModel \<Rightarrow> DataModel" where
  "copySelected m = m\<lparr>copiedPoints := map (heap m) (selectedPoints m)\<rparr>"

text \<open>
  \<^verbatim>\<open>pastePoints()\<close> returns \<^verbatim>\<open>undefined\<close> (here \<open>None\<close>) on an empty clipboard, and
  the array of new objects otherwise. \<^verbatim>\<open>lastPoint ? lastPoint.time : 0\<close> reads the
  last element of the sequence after the snapshot was taken.
\<close>

definition pastePoints :: "config \<Rightarrow> DataModel \<Rightarrow> ref list option \<times> DataModel" where
  "pastePoints cfg m =
     (if copiedPoints m = [] then (None, m)
      else
        let m1 = saveState cfg m;
            startTime = (case points m1 of [] \<Rightarrow> 0 | _ \<Rightarrow> time (heap m1 (last (points m1))));
            firstCopiedTime = time (hd (copiedPoints m1));
            newPoints = map (\<lambda>p. \<lparr>time = startTime + (time p - firstCopiedTime),
                                   amplitude = amplitude p\<rparr>) (copiedPoints m1);
            (rs, m2) = newObjects newPoints m1;
            m3 = m2\<lparr>points := points m2 @ rs, selectedPoints := rs\<rparr>
        in (Some rs, sortPoints m3))"

definition loadPoints :: "ref list \<Rightarrow> DataModel \<Rightarrow> DataModel" where
  "loadPoints newPoints m =
     (clearSelection (m\<lparr>points := newPoints\<rparr>))\<lparr>undoStack := [], redoStack := []\<rparr>"

section \<open>CanvasRenderer: coordinate conversion\<close>

text \<open>
  \<^verbatim>\<open>canvas.width\<close> and \<^verbatim>\<open>canvas.height\<close> are unsigned integers. The four
  conversions are those of canvasRenderer.js (main.js has the same formulas on globals).
  A quotient is the code's only where its divisor is not zero: on a canvas of width or
  height zero, or at zoom zero, the code computes an infinity or NaN, which the reals do
  not have. Every property below that goes through these conversions therefore assumes
  a canvas of positive size and a non-zero zoom (and a non-zero duration where
  \<open>timeToX\<close> divides by the visible range).
\<close>

record canvas =
  width :: nat
  height :: nat

definition visibleRange :: "DataModel \<Rightarrow> real" where
  "visibleRange m = duration m / zoom m"

definition timeToX :: "canvas \<Rightarrow> DataModel \<Rightarrow> real \<Rightarrow> real" where
  "timeToX c m t = ((t - pan m) / visibleRange m) * real (width c)"

definition xToTime :: "canvas \<Rightarrow> DataModel \<Rightarrow> real \<Rightarrow> real" where
  "xToTime c m x = pan m + (x / real (width c)) * visibleRange m"

definition amplitudeToY :: "canvas \<Rightarrow> real \<Rightarrow> real" where
  "amplitudeToY c a = real (height c) / 2 - a * (real (height c) / 2)"

definition yToAmplitude :: "canvas \<Rightarrow> real \<Rightarrow> real" where
  "yToAmplitude c y = (real (height c) / 2 - y) / (real (height c) / 2)"

section \<open>InteractionHandler: dragging points\<close>

text \<open>
  The fields of the handler and of the mouse event that \<^verbatim>\<open>dragPoints(e)\<close> reads.
  \<^verbatim>\<open>onMouseMove\<close> calls it only while \<^verbatim>\<open>this.draggingPoint\<close> is set; with a null
  dragged point the else branch would read a property of null and throw.
\<close>

record InteractionHandler =
  draggingPoint :: "ref option"
  lastX :: real
  lastY :: real

record mouseEvent =
  offsetX :: real
  offsetY :: real

datatype js_error = TypeError | NotSupportedError

text \<open>The test loop over \<^verbatim>\<open>Array.from(selectedPoints)\<close>, leaving at the first violation.\<close>

fun canMove :: "DataModel \<Rightarrow> real \<Rightarrow> real \<Rightarrow> ref list \<Rightarrow> bool" where
  "canMove m dx dy [] = True"
| "canMove m dx dy (p # ps) =
     (let newTime = time (heap m p) + dx;
          newAmp = amplitude (heap m p) + dy
      in if newTime < 0 \<or> newTime > duration m \<or> newAmp < - 1 \<or> newAmp > 1 then False
         else canMove m dx dy ps)"

text \<open>\<^verbatim>\<open>selectedArray.forEach(p => { p.time += dx; p.amplitude += dy; })\<close>.\<close>

fun moveEach :: "real \<Rightarrow> real \<Rightarrow> ref list \<Rightarrow> DataModel \<Rightarrow> DataModel" where
  "moveEach dx dy [] m = m"
| "moveEach dx dy (p # ps) m =
     moveEach dx dy ps
       (m\<lparr>heap := (heap m)(p := \<lparr>time = time (heap m p) + dx,
                                    amplitude = amplitude (heap m p) + dy\<rparr>)\<rparr>)"

definition dragPoints ::
    "canvas \<Rightarrow> InteractionHandler \<Rightarrow> mouseEvent \<Rightarrow> DataModel \<Rightarrow> js_error + DataModel" where
  "dragPoints c h e m =
     (let dx = xToTime c m (offsetX e) - xToTime c m (lastX h);
          dy = yToAmplitude c (offsetY e) - yToAmplitude c (lastY h)
      in case draggingPoint h of
           None \<Rightarrow> Inl TypeError
         | Some d \<Rightarrow>
             Inr (sortPoints
               (if d \<in> set (selectedPoints m) then
                  (if canMove m dx dy (selectedPoints m)
                   then moveEach dx dy (selectedPoints m) m else m)
                else
                  (let newTime = time (heap m d) + dx;
                       newAmp = amplitude (heap m d) + dy
                   in if newTime \<ge> 0 \<and> newTime \<le> duration m \<and> newAmp \<ge> - 1 \<and> newAmp \<le> 1
                      then m\<lparr>heap := (heap m)(d := \<lparr>time = newTime, amplitude = newAmp\<rparr>)\<rparr>
                      else m))))"

section \<open>Sequences of calls on a DataModel\<close>

text \<open>
  The public calls on a \<^verbatim>\<open>DataModel\<close>, and the drag step of the interaction handler,
  which writes the points directly. \<open>LoadPoints\<close> is the load button of ui.js: the array of
  fresh objects that \<^verbatim>\<open>FileIO.loadFromJSON\<close> or \<^verbatim>\<open>FileIO.loadAudio\<close> produced is
  handed to \<^verbatim>\<open>loadPoints\<close>. A drag that throws leaves the model as it was.
\<close>

datatype call =
    AddPoint real real
  | RemovePoints "ref list"
  | UpdatePoint ref real real
  | SelectPoint ref
  | SelectAllPoints
  | ClearSelection
  | CopySelected
  | PastePoints
  | SaveState
  | Undo
  | Redo
  | LoadPoints "real point list"
  | DragPoints canvas InteractionHandler mouseEvent

fun exec :: "config \<Rightarrow> call \<Rightarrow> DataModel \<Rightarrow> DataModel" where
  "exec cfg (AddPoint t a) m = addPoint cfg t a m"
| "exec cfg (RemovePoints ps) m = removePoints cfg ps m"
| "exec cfg (UpdatePoint p t a) m = updatePoint p t a m"
| "exec cfg (SelectPoint p) m = selectPoint p m"
| "exec cfg SelectAllPoints m = selectAllPoints m"
| "exec cfg ClearSelection m = clearSelection m"
| "exec cfg CopySelected m = copySelected m"
| "exec cfg PastePoints m = snd (pastePoints cfg m)"
| "exec cfg SaveState m = saveState cfg m"
| "exec cfg Undo m = snd (undo m)"
| "exec cfg Redo m = snd (redo m)"
| "exec cfg (LoadPoints vs) m = (let (rs, m') = newObjects vs m in loadPoints rs m')"
| "exec cfg (DragPoints c h e) m = (case dragPoints c h e m of Inl err \<Rightarrow> m | Inr m' \<Rightarrow> m')"

fun run :: "config \<Rightarrow> call list \<Rightarrow> DataModel \<Rightarrow> DataModel" where
  "run cfg [] m = m"
| "run cfg (c # cs) m = run cfg cs (exec cfg c m)"

section \<open>AudioEngine: synthesis\<close>

text \<open>
  \<^verbatim>\<open>Array.prototype.findIndex\<close> (\<open>-1\<close> when no element qualifies) and an array read,
  which yields \<^verbatim>\<open>undefined\<close> (here \<open>None\<close>) outside the array.
\<close>

fun findIndex :: "('a \<Rightarrow> bool) \<Rightarrow> 'a list \<Rightarrow> int" where
  "findIndex P [] = - 1"
| "findIndex P (x # xs) =
     (if P x then 0 else (let i = findIndex P xs in if i = - 1 then - 1 else i + 1))"

definition arrayGet :: "'a list \<Rightarrow> int \<Rightarrow> 'a option" where
  "arrayGet xs i = (if 0 \<le> i \<and> i < int (length xs) then Some (xs ! nat i) else None)"

text \<open>\<^verbatim>\<open>points[points.length - 1]?.time || duration\<close>: a zero time is falsy.\<close>

definition totalTime :: "real point list \<Rightarrow> real \<Rightarrow> real" where
  "totalTime pts dur =
     (case arrayGet pts (int (length pts) - 1) of
        None \<Rightarrow> dur
      | Some p \<Rightarrow> if time p = 0 then dur else time p)"

definition bufferLength :: "real \<Rightarrow> real point list \<Rightarrow> real \<Rightarrow> int" where
  "bufferLength sampleRate pts dur = \<lceil>sampleRate * totalTime pts dur\<rceil>"

text \<open>The body of the sample loop of \<^verbatim>\<open>generateBuffer\<close>, for the index \<open>i\<close>.\<close>

definition sampleAt :: "real \<Rightarrow> real point list \<Rightarrow> nat \<Rightarrow> real" where
  "sampleAt sampleRate pts i =
     (let t = real i / sampleRate;
          found = findIndex (\<lambda>p. time p > t) pts;
          nextIndex = (if found = - 1 then int (length pts) - 1 else found);
          prevIndex = max 0 (nextIndex - 1);
          p1 = arrayGet pts prevIndex;
          p2 = arrayGet pts nextIndex
      in case p1 of
           None \<Rightarrow> 0
         | Some a \<Rightarrow>
             (case p2 of
                None \<Rightarrow> amplitude a
              | Some b \<Rightarrow>
                  if time b \<noteq> time a
                  then amplitude a + (amplitude b - amplitude a) * ((t - time a) / (time b - time a))
                  else amplitude a))"

text \<open>
  \<^verbatim>\<open>generateBuffer(points, duration)\<close>, with the context's sample rate as a parameter.
  \<^verbatim>\<open>createBuffer\<close> needs a length of at least one frame: it throws for zero, and a
  negative computed length is no valid length either, so both are the error here.
\<close>

definition generateBuffer :: "real \<Rightarrow> real point list \<Rightarrow> real \<Rightarrow> js_error + real list" where
  "generateBuffer sampleRate pts dur =
     (let n = bufferLength sampleRate pts dur
      in if n < 1 then Inl NotSupportedError
         else Inr (map (sampleAt sampleRate pts) [0 ..< nat n]))"

section \<open>FileIO: 16-bit PCM samples\<close>

text \<open>
  The sample loop of \<^verbatim>\<open>audioBufferToWav\<close> for a mono buffer: clamp, scale,
  \<^verbatim>\<open>Math.floor\<close>, and \<^verbatim>\<open>view.setInt16(pos, v, true)\<close>, which stores the low sixteen
  bits of \<open>v\<close> with the low byte first.
\<close>

definition pcm16 :: "real \<Rightarrow> int" where
  "pcm16 x =
     (let sample = max (- 1) (min 1 x);
          s = (if sample < 0 then sample * 32768 else sample * 32767)
      in \<lfloor>s\<rfloor>)"

definition setInt16_le :: "int \<Rightarrow> 8 word list" where
  "setInt16_le v =
     (let w = (word_of_int v :: 16 word)
      in [ucast w, ucast (drop_bit 8 w)])"

definition wavSamples :: "real list \<Rightarrow> 8 word list" where
  "wavSamples samples = concat (map (\<lambda>x. setInt16_le (pcm16 x)) samples)"

section \<open>The module-level store of dataModel.js and its JSON import\<close>

text \<open>
  A JavaScript number that need not be finite, and a parsed JSON text; an object is the
  list of its properties, each name once. A JSON number literal too large for a double
  parses to an infinity; \<^verbatim>\<open>JSON.stringify\<close> writes \<^verbatim>\<open>null\<close> for a number that is
  not finite.
\<close>

datatype jsnum = Fin real | NaN | PosInf | NegInf

datatype json =
    JNull
  | JBool bool
  | JNum jsnum
  | JStr string
  | JArr "json list"
  | JObj "(string \<times> json) list"

text \<open>
  The module-level variables \<^verbatim>\<open>points\<close>, \<^verbatim>\<open>undoStack\<close>, \<^verbatim>\<open>redoStack\<close> and
  \<^verbatim>\<open>copiedPoints\<close>. The import does not depend on object identity, so this sequence
  is kept by value; a stack entry is the parsed form of the stored JSON text.
\<close>

record module_store =
  module_points :: "jsnum point list"
  module_undoStack :: "json list"
  module_redoStack :: "json list"
  module_copiedPoints :: "jsnum point list"

definition stringifyNumber :: "jsnum \<Rightarrow> json" where
  "stringifyNumber n = (case n of Fin r \<Rightarrow> JNum (Fin r) | _ \<Rightarrow> JNull)"

definition stringifyPoints :: "jsnum point list \<Rightarrow> json" where
  "stringifyPoints ps =
     JArr (map (\<lambda>p. JObj [(''time'', stringifyNumber (time p)),
                           (''amplitude'', stringifyNumber (amplitude p))]) ps)"

text \<open>The free function \<^verbatim>\<open>saveState()\<close>, with its own limit of 100 entries.\<close>

definition saveState_module :: "module_store \<Rightarrow> module_store" where
  "saveState_module st =
     (let pushed = module_undoStack st @ [stringifyPoints (module_points st)];
          kept = (if length pushed > 100 then tl pushed else pushed)
      in st\<lparr>module_undoStack := kept, module_redoStack := []\<rparr>)"

text \<open>
  \<^verbatim>\<open>p.time\<close>: reading a property of \<^verbatim>\<open>null\<close> throws; a primitive, a string or an
  array has no property of these names (\<^verbatim>\<open>undefined\<close>, here \<open>None\<close>).
\<close>

definition getProp :: "json \<Rightarrow> string \<Rightarrow> js_error + json option" where
  "getProp p k =
     (case p of
        JNull \<Rightarrow> Inl TypeError
      | JObj kvs \<Rightarrow> Inr (map_of kvs k)
      | _ \<Rightarrow> Inr None)"

text \<open>
  Unary plus. The conversion of a string, an array or an object to a number is the
  language's (\<^verbatim>\<open>ToPrimitive\<close>, then the string grammar); it is the parameter
  \<open>coerce\<close>, which answers \<open>None\<close> where the conversion throws.
\<close>

definition unaryPlus :: "(json \<Rightarrow> jsnum option) \<Rightarrow> json option \<Rightarrow> js_error + jsnum" where
  "unaryPlus coerce v =
     (case v of
        None \<Rightarrow> Inr NaN
      | Some JNull \<Rightarrow> Inr (Fin 0)
      | Some (JBool b) \<Rightarrow> Inr (Fin (if b then 1 else 0))
      | Some (JNum n) \<Rightarrow> Inr n
      | Some w \<Rightarrow> (case coerce w of None \<Rightarrow> Inl TypeError | Some n \<Rightarrow> Inr n))"

text \<open>\<^verbatim>\<open>p => ({ time: +p.time, amplitude: +p.amplitude })\<close>, in evaluation order.\<close>

definition importEntry :: "(json \<Rightarrow> jsnum option) \<Rightarrow> json \<Rightarrow> js_error + jsnum point" where
  "importEntry coerce p =
     (case getProp p ''time'' of
        Inl err \<Rightarrow> Inl err
      | Inr tv \<Rightarrow>
          (case unaryPlus coerce tv of
             Inl err \<Rightarrow> Inl err
           | Inr t \<Rightarrow>
               (case getProp p ''amplitude'' of
                  Inl err \<Rightarrow> Inl err
                | Inr av \<Rightarrow>
                    (case unaryPlus coerce av of
                       Inl err \<Rightarrow> Inl err
                     | Inr a \<Rightarrow> Inr \<lparr>time = t, amplitude = a\<rparr>))))"

text \<open>\<^verbatim>\<open>data.map(...)\<close>: the first throwing entry ends the map.\<close>

fun importEntries :: "(json \<Rightarrow> jsnum option) \<Rightarrow> json list \<Rightarrow> js_error + jsnum point list" where
  "importEntries coerce [] = Inr []"
| "importEntries coerce (p # ps) =
     (case importEntry coerce p of
        Inl err \<Rightarrow> Inl err
      | Inr q \<Rightarrow>
          (case importEntries coerce ps of
             Inl err \<Rightarrow> Inl err
           | Inr qs \<Rightarrow> Inr (q # qs)))"

text \<open>
  \<^verbatim>\<open>importFromJSON(jsonText)\<close>. The argument is the outcome of
  \<^verbatim>\<open>JSON.parse(jsonText)\<close>: \<open>None\<close> for a syntax error. \<open>Failed\<close> is the
  \<^verbatim>\<open>catch\<close> branch, which only logs \<^verbatim>\<open>"Import failed:"\<close>.
\<close>

datatype import_outcome = Imported | Failed

definition importFromJSON ::
    "(json \<Rightarrow> jsnum option) \<Rightarrow> json option \<Rightarrow> module_store \<Rightarrow> import_outcome \<times> module_store" where
  "importFromJSON coerce parsed st =
     (case parsed of
        None \<Rightarrow> (Failed, st)
      | Some (JArr ps) \<Rightarrow>
          (case importEntries coerce ps of
             Inl err \<Rightarrow> (Failed, st)
           | Inr pts \<Rightarrow> (Imported, saveState_module (st\<lparr>module_points := pts\<rparr>)))
      | Some other \<Rightarrow> (Failed, st))"

section \<open>Notions used to state the properties\<close>

text \<open>The history invariant: the two stacks together never exceed the limit.\<close>

definition history_inv :: "config \<Rightarrow> DataModel \<Rightarrow> bool" where
  "history_inv cfg m \<longleftrightarrow> length (undoStack m) + length (redoStack m) \<le> maxUndo cfg"

text \<open>Where a pasted block starts: at the last point of the sequence, at zero when there is none.\<close>

definition pasteAnchor :: "DataModel \<Rightarrow> real" where
  "pasteAnchor m = (if points m = [] then 0 else time (heap m (last (points m))))"

text \<open>
  A selected point's candidate position \<open>(time + dx, amplitude + dy)\<close> lies in
  \<open>[0, duration] \<times> [-1, 1]\<close>; and a point value moved by \<open>(dx, dy)\<close>.
\<close>

definition candidateInBounds :: "DataModel \<Rightarrow> real \<Rightarrow> real \<Rightarrow> ref \<Rightarrow> bool" where
  "candidateInBounds m dx dy p \<longleftrightarrow>
     0 \<le> time (heap m p) + dx \<and> time (heap m p) + dx \<le> duration m \<and>
     - 1 \<le> amplitude (heap m p) + dy \<and> amplitude (heap m p) + dy \<le> 1"

definition translated :: "real \<Rightarrow> real \<Rightarrow> real point \<Rightarrow> real point" where
  "translated dx dy q = \<lparr>time = time q + dx, amplitude = amplitude q + dy\<rparr>"

text \<open>
  The buffer length as the specification words it:
  \<open>ceil(sampleRate * max(duration, lastPointTime))\<close>, and \<open>ceil(sampleRate * duration)\<close>
  for an empty sequence.
\<close>

definition claimedBufferLength :: "real \<Rightarrow> real point list \<Rightarrow> real \<Rightarrow> int" where
  "claimedBufferLength sampleRate pts dur =
     (if pts = [] then \<lceil>sampleRate * dur\<rceil> else \<lceil>sampleRate * max dur (time (last pts))\<rceil>)"

text \<open>
  The amplitude at time \<open>t\<close> in the specification's words: \<open>p2\<close> is the first point
  with time greater than \<open>t\<close>, or the last point if there is none; \<open>p1\<close> is the point
  before \<open>p2\<close> in the sequence, or \<open>p2\<close> itself if none precedes; the value is on the
  line through them when their times differ, and \<open>p1\<close>'s amplitude otherwise.
\<close>

definition specAmplitude :: "real point list \<Rightarrow> real \<Rightarrow> real" where
  "specAmplitude pts t =
     (if pts = [] then 0
      else
        let earlier = takeWhile (\<lambda>p. \<not> t < time p) pts;
            later = dropWhile (\<lambda>p. \<not> t < time p) pts;
            p2 = (if later = [] then last pts else hd later);
            before = (if later = [] then butlast pts else earlier);
            p1 = (if before = [] then p2 else last before)
        in if time p1 \<noteq> time p2
           then amplitude p1 + (amplitude p2 - amplitude p1) * ((t - time p1) / (time p2 - time p1))
           else amplitude p1)"

text \<open>
  The clamped and scaled sample before rounding, truncation toward zero, and the 16-bit
  value as the specification words it (truncated toward zero).
\<close>

definition scaledSample :: "real \<Rightarrow> real" where
  "scaledSample x =
     (let sample = max (- 1) (min 1 x)
      in if sample < 0 then sample * 32768 else sample * 32767)"

definition truncTowardZero :: "real \<Rightarrow> int" where
  "truncTowardZero v = (if v < 0 then \<lceil>v\<rceil> else \<lfloor>v\<rfloor>)"

definition claimed_pcm16 :: "real \<Rightarrow> int" where
  "claimed_pcm16 x = truncTowardZero (scaledSample x)"

text \<open>
  A field value that unary plus converts without looking at a string, an array or an
  object (absent, null, boolean or any number, finite or not), and an entry that is an
  object whose time and amplitude are such values.
\<close>

definition plainValue :: "json option \<Rightarrow> bool" where
  "plainValue v =
     (case v of
        None \<Rightarrow> True
      | Some JNull \<Rightarrow> True
      | Some (JBool b) \<Rightarrow> True
      | Some (JNum n) \<Rightarrow> True
      | Some w \<Rightarrow> False)"

definition plainEntry :: "json \<Rightarrow> bool" where
  "plainEntry p =
     (case p of
        JObj kvs \<Rightarrow> plainValue (map_of kvs ''time'') \<and> plainValue (map_of kvs ''amplitude'')
      | _ \<Rightarrow> False)"

section \<open>Example states\<close>

text \<open>
  Two selected points A (time 0.1) and B (time 9.99) in a ten-second model, on a canvas
  where one second spans the whole width.
\<close>

definition drag_example :: DataModel where
  "drag_example =
     (new_DataModel DEFAULT_CONFIG)
       \<lparr>heap := (\<lambda>_. \<lparr>time = 0, amplitude = 0\<rparr>)
                  (0 := \<lparr>time = 1 / 10, amplitude = 0\<rparr>, 1 := \<lparr>time = 999 / 100, amplitude = 0\<rparr>),
         nextRef := 2, points := [0, 1], selectedPoints := [0, 1]\<rparr>"

text \<open>Fifty snapshots pushed on a new model: a full undo stack under the default limit.\<close>

definition full_history_example :: DataModel where
  "full_history_example = (saveState DEFAULT_CONFIG ^^ 50) (new_DataModel DEFAULT_CONFIG)"

text \<open>Two points added, all selected and copied.\<close>

definition paste_example :: DataModel where
  "paste_example =
     run DEFAULT_CONFIG [AddPoint 1 (1 / 2), AddPoint 3 (- (1 / 2)), SelectAllPoints, CopySelected]
       (new_DataModel DEFAULT_CONFIG)"

text \<open>One point at time 2 added, selected, copied and deleted again: a clipboard over an empty sequence.\<close>

definition paste_empty_example :: DataModel where
  "paste_empty_example =
     run DEFAULT_CONFIG [AddPoint 2 (1 / 2), SelectAllPoints, CopySelected, RemovePoints [0]]
       (new_DataModel DEFAULT_CONFIG)"

text \<open>One point added and selected; the undo stack holds the empty sequence.\<close>

definition undo_example :: DataModel where
  "undo_example = run DEFAULT_CONFIG [AddPoint 1 (1 / 2), SelectAllPoints] (new_DataModel DEFAULT_CONFIG)"

text \<open>The two points of the specification's synthesis example.\<close>

definition ramp :: "real point list" where
  "ramp = [\<lparr>time = 0, amplitude = 0\<rparr>, \<lparr>time = 1, amplitude = 1\<rparr>]"

text \<open>
  The import examples hold no string, array or object as a field value, so the
  conversion parameter is never consulted there; it is instantiated with the conversion
  that throws on everything. The payloads are the parsed texts
  \<^verbatim>\<open>[{"time":1e999,"amplitude":0},{"amplitude":0.5}]\<close> and
  \<^verbatim>\<open>[{"time":1,"amplitude":0},null]\<close>.
\<close>

definition throwingCoerce :: "json \<Rightarrow> jsnum option" where
  "throwingCoerce w = None"

definition empty_store :: module_store where
  "empty_store = \<lparr>module_points = [], module_undoStack = [], module_redoStack = [],
                   module_copiedPoints = []\<rparr>"

definition nonfinite_payload :: "json option" where
  "nonfinite_payload =
     Some (JArr [JObj [(''time'', JNum PosInf), (''amplitude'', JNum (Fin 0))],
                 JObj [(''amplitude'', JNum (Fin (1 / 2)))]])"

definition null_entry_payload :: "json option" where
  "null_entry_payload =
     Some (JArr [JObj [(''time'', JNum (Fin 1)), (''amplitude'', JNum (Fin 0))], JNull])"

section \<open>Facts about the object store\<close>

lemma newObjects_fields:
  "newObjects vs m = (rs, m') \<Longrightarrow>
     points m' = points m \<and> selectedPoints m' = selectedPoints m \<and>
     selectedPoint m' = selectedPoint m \<and> copiedPoints m' = copiedPoints m \<and>
     undoStack m' = undoStack m \<and> redoStack m' = redoStack m \<and>
     duration m' = duration m \<and> zoom m' = zoom m \<and> pan m' = pan m"
proof (induction vs arbitrary: m rs m')
  case Nil
  then show ?case by simp
next
  case (Cons v vs)
  obtain rs1 m1 where step: "newObjects vs (m\<lparr>heap := (heap m)(nextRef m := v), nextRef := Suc (nextRef m)\<rparr>) = (rs1, m1)"
    by (cases "newObjects vs (m\<lparr>heap := (heap m)(nextRef m := v), nextRef := Suc (nextRef m)\<rparr>)")
  with Cons.prems have "m' = m1" by (simp add: Let_def)
  with Cons.IH [OF step] show ?case by simp
qed

lemma newObjects_refs:
  "newObjects vs m = (rs, m') \<Longrightarrow>
     rs = [nextRef m ..< nextRef m + length vs] \<and> nextRef m' = nextRef m + length vs"
proof (induction vs arbitrary: m rs m')
  case Nil
  then show ?case by simp
next
  case (Cons v vs)
  let ?m = "m\<lparr>heap := (heap m)(nextRef m := v), nextRef := Suc (nextRef m)\<rparr>"
  obtain rs1 m1 where step: "newObjects vs ?m = (rs1, m1)"
    by (cases "newObjects vs ?m")
  with Cons.prems have eq: "rs = nextRef m # rs1" "m' = m1" by (simp_all add: Let_def)
  from Cons.IH [OF step] have ih: "rs1 = [Suc (nextRef m) ..< Suc (nextRef m) + length vs]"
    "nextRef m1 = Suc (nextRef m) + length vs" by simp_all
  have "[nextRef m ..< nextRef m + length (v # vs)] =
        nextRef m # [Suc (nextRef m) ..< Suc (nextRef m) + length vs]"
    by (simp add: upt_conv_Cons del: upt_Suc)
  with eq ih show ?case by simp
qed

lemma newObjects_heap:
  "newObjects vs m = (rs, m') \<Longrightarrow>
     heap m' r = (if nextRef m \<le> r \<and> r < nextRef m + length vs then vs ! (r - nextRef m)
                  else heap m r)"
proof (induction vs arbitrary: m rs m')
  case Nil
  then show ?case by simp
next
  case (Cons v vs)
  let ?m = "m\<lparr>heap := (heap m)(nextRef m := v), nextRef := Suc (nextRef m)\<rparr>"
  obtain rs1 m1 where step: "newObjects vs ?m = (rs1, m1)"
    by (cases "newObjects vs ?m")
  with Cons.prems have eq: "m' = m1" by (simp add: Let_def)
  from Cons.IH [OF step] have
    "heap m1 r = (if Suc (nextRef m) \<le> r \<and> r < Suc (nextRef m) + length vs
                  then vs ! (r - Suc (nextRef m)) else heap ?m r)" by simp
  with eq show ?case by (auto simp: nth_Cons' )
qed

lemma newObjects_map_heap:
  assumes "newObjects vs m = (rs, m')"
  shows "map (heap m') rs = vs"
proof -
  from newObjects_refs [OF assms] have rs: "rs = [nextRef m ..< nextRef m + length vs]" by simp
  show ?thesis
    by (rule nth_equalityI) (simp_all add: rs newObjects_heap [OF assms])
qed

lemmas eval_defs = addPoint_def removePoints_def selectAllPoints_def copySelected_def
  new_DataModel_def DEFAULT_CONFIG_def saveState_def maxUndo_def snapshot_def sortPoints_def Let_def

section \<open>History\<close>

lemma saveState_fields:
  "points (saveState cfg m) = points m \<and> heap (saveState cfg m) = heap m \<and>
   nextRef (saveState cfg m) = nextRef m \<and> selectedPoints (saveState cfg m) = selectedPoints m \<and>
   selectedPoint (saveState cfg m) = selectedPoint m \<and> copiedPoints (saveState cfg m) = copiedPoints m \<and>
   redoStack (saveState cfg m) = []"
  by (simp add: saveState_def Let_def)

lemma saveState_undoStack:
  "undoStack (saveState cfg m) =
     (if length (undoStack m) < maxUndo cfg then undoStack m @ [snapshot m]
      else tl (undoStack m @ [snapshot m]))"
  by (simp add: saveState_def Let_def)

lemma maxUndo_pos: "0 < maxUndo cfg"
  by (simp add: maxUndo_def)

lemma saveState_inv: "history_inv cfg m \<Longrightarrow> history_inv cfg (saveState cfg m)"
  using maxUndo_pos [of cfg]
  by (auto simp: history_inv_def saveState_undoStack saveState_fields)

lemma undo_stacks:
  "undoStack m \<noteq> [] \<Longrightarrow>
     undoStack (snd (undo m)) = butlast (undoStack m) \<and>
     redoStack (snd (undo m)) = redoStack m @ [snapshot m]"
proof -
  assume ne: "undoStack m \<noteq> []"
  let ?m1 = "m\<lparr>redoStack := redoStack m @ [snapshot m]\<rparr>"
  obtain rs m2 where step: "newObjects (last (undoStack ?m1)) ?m1 = (rs, m2)"
    by (cases "newObjects (last (undoStack ?m1)) ?m1")
  from newObjects_fields [OF step] ne step show ?thesis
    by (simp add: undo_def Let_def)
qed

lemma redo_stacks:
  "redoStack m \<noteq> [] \<Longrightarrow>
     redoStack (snd (redo m)) = butlast (redoStack m) \<and>
     undoStack (snd (redo m)) = undoStack m @ [snapshot m]"
proof -
  assume ne: "redoStack m \<noteq> []"
  let ?m1 = "m\<lparr>undoStack := undoStack m @ [snapshot m]\<rparr>"
  obtain rs m2 where step: "newObjects (last (redoStack ?m1)) ?m1 = (rs, m2)"
    by (cases "newObjects (last (redoStack ?m1)) ?m1")
  from newObjects_fields [OF step] ne step show ?thesis
    by (simp add: redo_def Let_def)
qed

lemma undo_inv: "history_inv cfg m \<Longrightarrow> history_inv cfg (snd (undo m))"
proof (cases "undoStack m = []")
  case True
  then show "history_inv cfg m \<Longrightarrow> ?thesis" by (simp add: undo_def)
next
  case False
  then obtain u us where "undoStack m = u # us" by (cases "undoStack m") auto
  with undo_stacks [OF False] show "history_inv cfg m \<Longrightarrow> ?thesis"
    by (simp add: history_inv_def)
qed

lemma redo_inv: "history_inv cfg m \<Longrightarrow> history_inv cfg (snd (redo m))"
proof (cases "redoStack m = []")
  case True
  then show "history_inv cfg m \<Longrightarrow> ?thesis" by (simp add: redo_def)
next
  case False
  then obtain u us where "redoStack m = u # us" by (cases "redoStack m") auto
  with redo_stacks [OF False] show "history_inv cfg m \<Longrightarrow> ?thesis"
    by (simp add: history_inv_def)
qed

lemma addPoint_stacks:
  "undoStack (addPoint cfg t a m) = undoStack (saveState cfg m) \<and> redoStack (addPoint cfg t a m) = []"
  by (simp add: addPoint_def Let_def sortPoints_def saveState_fields)

lemma removePoints_stacks:
  "undoStack (removePoints cfg ps m) = undoStack (saveState cfg m) \<and> redoStack (removePoints cfg ps m) = []"
  by (simp add: removePoints_def Let_def saveState_fields)

lemma pastePoints_stacks:
  "copiedPoints m \<noteq> [] \<Longrightarrow>
   undoStack (snd (pastePoints cfg m)) = undoStack (saveState cfg m) \<and>
   redoStack (snd (pastePoints cfg m)) = []"
proof -
  assume ne: "copiedPoints m \<noteq> []"
  let ?m1 = "saveState cfg m"
  let ?start = "(case points ?m1 of [] \<Rightarrow> 0 | _ \<Rightarrow> time (heap ?m1 (last (points ?m1))))"
  let ?new = "map (\<lambda>p. \<lparr>time = ?start + (time p - time (hd (copiedPoints ?m1))),
                                   amplitude = amplitude p\<rparr>) (copiedPoints ?m1)"
  obtain rs m2 where step: "newObjects ?new ?m1 = (rs, m2)"
    by (cases "newObjects ?new ?m1")
  from newObjects_fields [OF step] ne step show ?thesis
    by (simp add: pastePoints_def Let_def sortPoints_def saveState_fields)
qed

lemma moveEach_fields:
  "points (moveEach dx dy ps m) = points m \<and> selectedPoints (moveEach dx dy ps m) = selectedPoints m \<and>
   selectedPoint (moveEach dx dy ps m) = selectedPoint m \<and>
   undoStack (moveEach dx dy ps m) = undoStack m \<and> redoStack (moveEach dx dy ps m) = redoStack m \<and>
   duration (moveEach dx dy ps m) = duration m"
  by (induction ps arbitrary: m) simp_all

lemma dragPoints_stacks:
  "dragPoints c h e m = Inr m' \<Longrightarrow> undoStack m' = undoStack m \<and> redoStack m' = redoStack m"
  by (auto simp: dragPoints_def Let_def sortPoints_def moveEach_fields split: option.splits if_splits)

lemma exec_inv: "history_inv cfg m \<Longrightarrow> history_inv cfg (exec cfg c m)"
proof (cases c)
  case (AddPoint t a)
  then show "history_inv cfg m \<Longrightarrow> ?thesis"
    using saveState_inv [of cfg m] by (simp add: history_inv_def addPoint_stacks saveState_fields)
next
  case (RemovePoints ps)
  then show "history_inv cfg m \<Longrightarrow> ?thesis"
    using saveState_inv [of cfg m] by (simp add: history_inv_def removePoints_stacks saveState_fields)
next
  case (UpdatePoint p t a)
  then show "history_inv cfg m \<Longrightarrow> ?thesis"
    by (simp add: history_inv_def updatePoint_def sortPoints_def)
next
  case (SelectPoint p)
  then show "history_inv cfg m \<Longrightarrow> ?thesis" by (simp add: history_inv_def selectPoint_def)
next
  case SelectAllPoints
  then show "history_inv cfg m \<Longrightarrow> ?thesis" by (simp add: history_inv_def selectAllPoints_def)
next
  case ClearSelection
  then show "history_inv cfg m \<Longrightarrow> ?thesis" by (simp add: history_inv_def clearSelection_def)
next
  case CopySelected
  then show "history_inv cfg m \<Longrightarrow> ?thesis" by (simp add: history_inv_def copySelected_def)
next
  case PastePoints
  show "history_inv cfg m \<Longrightarrow> ?thesis"
  proof (cases "copiedPoints m = []")
    case True
    with PastePoints show "history_inv cfg m \<Longrightarrow> ?thesis" by (simp add: pastePoints_def)
  next
    case False
    with PastePoints show "history_inv cfg m \<Longrightarrow> ?thesis"
      using saveState_inv [of cfg m] pastePoints_stacks [OF False, of cfg]
      by (simp add: history_inv_def saveState_fields)
  qed
next
  case SaveState
  then show "history_inv cfg m \<Longrightarrow> ?thesis" by (simp add: saveState_inv)
next
  case Undo
  then show "history_inv cfg m \<Longrightarrow> ?thesis" by (simp add: undo_inv)
next
  case Redo
  then show "history_inv cfg m \<Longrightarrow> ?thesis" by (simp add: redo_inv)
next
  case (LoadPoints vs)
  then show "history_inv cfg m \<Longrightarrow> ?thesis"
    by (simp add: history_inv_def loadPoints_def clearSelection_def split: prod.splits)
next
  case (DragPoints c h e)
  then show "history_inv cfg m \<Longrightarrow> ?thesis"
    by (auto simp: history_inv_def split: sum.splits dest: dragPoints_stacks)
qed

lemma run_inv: "history_inv cfg m \<Longrightarrow> history_inv cfg (run cfg cs m)"
  by (induction cs arbitrary: m) (simp_all add: exec_inv)

lemma new_inv: "history_inv cfg (new_DataModel cfg)"
  by (simp add: history_inv_def new_DataModel_def)

lemma saveState_funpow_length:
  "undoStack m = [] \<Longrightarrow> length (undoStack ((saveState cfg ^^ n) m)) = min n (maxUndo cfg)"
proof (induction n)
  case 0
  then show ?case by simp
next
  case (Suc n)
  then show ?case using maxUndo_pos [of cfg]
    by (auto simp: saveState_undoStack min_def)
qed

text \<open>
  C8. With a positive \<^verbatim>\<open>CONFIG.MAX_UNDO\<close>, after any sequence of calls and drag steps
  on a new \<^verbatim>\<open>DataModel\<close> the undo stack holds at most \<open>MAX_UNDO\<close> snapshots; pushing
  \<open>MAX_UNDO + 1\<close> snapshots on an empty stack retains exactly \<open>MAX_UNDO\<close>; a push on a
  full stack discards the oldest snapshot and appends the new one; and every push
  (\<^verbatim>\<open>saveState\<close>) clears the redo stack.
\<close>

theorem undo_history_bounded:
  assumes "0 < MAX_UNDO cfg"
  shows "length (undoStack (run cfg cs (new_DataModel cfg))) \<le> MAX_UNDO cfg \<and>
         (undoStack m = [] \<longrightarrow>
            length (undoStack ((saveState cfg ^^ (MAX_UNDO cfg + 1)) m)) = MAX_UNDO cfg) \<and>
         (length (undoStack m) = MAX_UNDO cfg \<longrightarrow>
            undoStack (saveState cfg m) = tl (undoStack m) @ [snapshot m]) \<and>
         (length (undoStack m) < MAX_UNDO cfg \<longrightarrow>
            undoStack (saveState cfg m) = undoStack m @ [snapshot m]) \<and>
         redoStack (saveState cfg m) = []"
proof -
  from assms have mu: "maxUndo cfg = MAX_UNDO cfg" by (simp add: maxUndo_def)
  have "history_inv cfg (run cfg cs (new_DataModel cfg))"
    by (rule run_inv [OF new_inv])
  then have bound: "length (undoStack (run cfg cs (new_DataModel cfg))) \<le> MAX_UNDO cfg"
    by (simp add: history_inv_def mu)
  have full: "length (undoStack m) = MAX_UNDO cfg \<longrightarrow>
            undoStack (saveState cfg m) = tl (undoStack m) @ [snapshot m]"
    using assms by (cases "undoStack m") (auto simp: saveState_undoStack mu)
  show ?thesis
    using bound full saveState_funpow_length [where m = m and cfg = cfg and n = "MAX_UNDO cfg + 1"]
    by (simp add: saveState_undoStack saveState_fields mu)
qed

theorem undo_history_bounded_witness:
  "0 < MAX_UNDO DEFAULT_CONFIG \<and>
   length (undoStack (run DEFAULT_CONFIG [AddPoint 1 0, Undo, Redo, SaveState]
                        (new_DataModel DEFAULT_CONFIG))) \<le> 50 \<and>
   undoStack (new_DataModel DEFAULT_CONFIG) = [] \<and>
   length (undoStack ((saveState DEFAULT_CONFIG ^^ 51) (new_DataModel DEFAULT_CONFIG))) = 50 \<and>
   length (undoStack full_history_example) = MAX_UNDO DEFAULT_CONFIG \<and>
   undoStack (saveState DEFAULT_CONFIG full_history_example) =
     tl (undoStack full_history_example) @ [snapshot full_history_example] \<and>
   redoStack (saveState DEFAULT_CONFIG full_history_example) = []"
proof -
  have pos: "0 < MAX_UNDO DEFAULT_CONFIG" by (simp add: DEFAULT_CONFIG_def)
  have empty: "undoStack (new_DataModel DEFAULT_CONFIG) = []" by (simp add: new_DataModel_def)
  have full: "length (undoStack full_history_example) = MAX_UNDO DEFAULT_CONFIG"
    unfolding full_history_example_def
    using saveState_funpow_length [OF empty, where cfg = DEFAULT_CONFIG and n = 50]
    by (simp add: maxUndo_def DEFAULT_CONFIG_def)
  from undo_history_bounded [OF pos, of "[AddPoint 1 0, Undo, Redo, SaveState]" "new_DataModel DEFAULT_CONFIG"]
    undo_history_bounded [OF pos, of "[]" full_history_example] pos empty full
  show ?thesis by (simp add: DEFAULT_CONFIG_def)
qed

text \<open>
  What the code does about the selection on \<^verbatim>\<open>undo()\<close> and \<^verbatim>\<open>redo()\<close>: nothing. In
  every state the selection set and the single selected point are the same after the
  call as before; \<^verbatim>\<open>loadPoints\<close>, the other wholesale replacement of the sequence,
  clears both.
\<close>

lemma undo_selection:
  "selectedPoints (snd (undo m)) = selectedPoints m \<and> selectedPoint (snd (undo m)) = selectedPoint m"
proof (cases "undoStack m = []")
  case True
  then show ?thesis by (simp add: undo_def)
next
  case False
  let ?m1 = "m\<lparr>redoStack := redoStack m @ [snapshot m]\<rparr>"
  obtain rs m2 where step: "newObjects (last (undoStack ?m1)) ?m1 = (rs, m2)"
    by (cases "newObjects (last (undoStack ?m1)) ?m1")
  from newObjects_fields [OF step] False step show ?thesis
    by (simp add: undo_def Let_def)
qed

lemma redo_selection:
  "selectedPoints (snd (redo m)) = selectedPoints m \<and> selectedPoint (snd (redo m)) = selectedPoint m"
proof (cases "redoStack m = []")
  case True
  then show ?thesis by (simp add: redo_def)
next
  case False
  let ?m1 = "m\<lparr>undoStack := undoStack m @ [snapshot m]\<rparr>"
  obtain rs m2 where step: "newObjects (last (redoStack ?m1)) ?m1 = (rs, m2)"
    by (cases "newObjects (last (redoStack ?m1)) ?m1")
  from newObjects_fields [OF step] False step show ?thesis
    by (simp add: redo_def Let_def)
qed

text \<open>
  C4, evaluated: after one point is added and selected, \<^verbatim>\<open>undo()\<close> returns true and
  empties the sequence while the selection set still holds the removed object;
  \<^verbatim>\<open>redo()\<close> then restores the point as a new object and the selection still holds
  the old one.
\<close>

theorem undo_keeps_stale_selection:
  "points undo_example = [0] \<and> selectedPoints undo_example = [0] \<and>
   fst (undo undo_example) = True \<and>
   points (snd (undo undo_example)) = [] \<and>
   selectedPoints (snd (undo undo_example)) = [0] \<and>
   fst (redo (snd (undo undo_example))) = True \<and>
   points (snd (redo (snd (undo undo_example)))) = [1] \<and>
   selectedPoints (snd (redo (snd (undo undo_example)))) = [0]"
  by (simp add: undo_example_def undo_def redo_def eval_defs)

section \<open>Loading\<close>


section \<open>Paste\<close>

text \<open>
  C5, as the code has it. For a non-empty clipboard, \<^verbatim>\<open>pastePoints()\<close> pushes a
  snapshot (clearing the redo stack), creates one new object per clipboard entry,
  translated so that the first pasted point's time is the time of the last point of the
  sequence, or zero when the sequence is empty; the clipboard and the existing objects
  are unchanged, the new objects become the selection set, and the sequence is the old
  one followed by the new objects, sorted by time.
\<close>

theorem pastePoints_anchor:
  assumes "copiedPoints m \<noteq> []"
  shows "fst (pastePoints cfg m) = Some [nextRef m ..< nextRef m + length (copiedPoints m)] \<and>
     undoStack (snd (pastePoints cfg m)) = undoStack (saveState cfg m) \<and>
     redoStack (snd (pastePoints cfg m)) = [] \<and>
     map (heap (snd (pastePoints cfg m))) [nextRef m ..< nextRef m + length (copiedPoints m)] =
       map (\<lambda>p. \<lparr>time = pasteAnchor m + (time p - time (hd (copiedPoints m))),
                  amplitude = amplitude p\<rparr>) (copiedPoints m) \<and>
     time (heap (snd (pastePoints cfg m)) (nextRef m)) = pasteAnchor m \<and>
     (\<forall>r. r < nextRef m \<longrightarrow> heap (snd (pastePoints cfg m)) r = heap m r) \<and>
     copiedPoints (snd (pastePoints cfg m)) = copiedPoints m \<and>
     selectedPoints (snd (pastePoints cfg m)) = [nextRef m ..< nextRef m + length (copiedPoints m)] \<and>
     points (snd (pastePoints cfg m)) =
       sort_key (\<lambda>r. time (heap (snd (pastePoints cfg m)) r))
         (points m @ [nextRef m ..< nextRef m + length (copiedPoints m)]) \<and>
     sorted (map (\<lambda>r. time (heap (snd (pastePoints cfg m)) r)) (points (snd (pastePoints cfg m))))"
proof -
  let ?m1 = "saveState cfg m"
  let ?start = "(case points ?m1 of [] \<Rightarrow> 0 | _ \<Rightarrow> time (heap ?m1 (last (points ?m1))))"
  let ?new = "map (\<lambda>p. \<lparr>time = ?start + (time p - time (hd (copiedPoints ?m1))),
                                   amplitude = amplitude p\<rparr>) (copiedPoints ?m1)"
  obtain rs m2 where step: "newObjects ?new ?m1 = (rs, m2)"
    by (cases "newObjects ?new ?m1")
  have start: "?start = pasteAnchor m"
    by (simp add: pasteAnchor_def saveState_fields split: list.splits)
  have new: "?new = map (\<lambda>p. \<lparr>time = pasteAnchor m + (time p - time (hd (copiedPoints m))),
                  amplitude = amplitude p\<rparr>) (copiedPoints m)"
    by (simp only: start) (simp add: saveState_fields)
  let ?rs = "[nextRef m ..< nextRef m + length (copiedPoints m)]"
  from newObjects_refs [OF step] have rs: "rs = ?rs"
    by (simp add: saveState_fields)
  let ?m' = "sortPoints (m2\<lparr>points := points m2 @ rs, selectedPoints := rs\<rparr>)"
  from assms step have res: "pastePoints cfg m = (Some rs, ?m')"
    by (simp add: pastePoints_def Let_def)
  have heap': "heap ?m' = heap m2" by (simp add: sortPoints_def)
  from newObjects_fields [OF step] have fields:
    "points m2 = points m" "copiedPoints m2 = copiedPoints m"
    "undoStack m2 = undoStack ?m1" "redoStack m2 = []"
    by (simp_all add: saveState_fields)
  from newObjects_map_heap [OF step] have vals: "map (heap m2) rs = ?new" .
  have first: "time (heap m2 (nextRef m)) = pasteAnchor m"
  proof -
    from assms obtain c cs where c: "copiedPoints m = c # cs" by (cases "copiedPoints m") auto
    have "heap m2 (nextRef m) = ?new ! 0"
      using newObjects_heap [OF step, of "nextRef m"] c by (simp add: saveState_fields)
    also have "time (?new ! 0) = pasteAnchor m"
      by (simp only: new) (simp add: c)
    finally show ?thesis by simp
  qed
  have old: "\<forall>r. r < nextRef m \<longrightarrow> heap m2 r = heap m r"
    using newObjects_heap [OF step] by (simp add: saveState_fields)
  have pts: "points ?m' = sort_key (\<lambda>r. time (heap m2 r)) (points m @ rs)"
    by (simp add: sortPoints_def fields)
  have srt: "sorted (map (\<lambda>r. time (heap m2 r)) (points ?m'))"
    by (simp only: pts sorted_sort_key)
  show ?thesis
    unfolding res fst_conv snd_conv heap'
    using rs fields vals first old pts srt new
    by (simp add: sortPoints_def)
qed

lemma paste_example_eq:
  "points paste_example = [0, 1] \<and> nextRef paste_example = 2 \<and>
   copiedPoints paste_example = [\<lparr>time = 1, amplitude = 1 / 2\<rparr>, \<lparr>time = 3, amplitude = - (1 / 2)\<rparr>] \<and>
   heap paste_example (Suc 0) = \<lparr>time = 3, amplitude = - (1 / 2)\<rparr>"
  by (simp add: paste_example_def eval_defs)

theorem pastePoints_anchor_witness:
  "copiedPoints paste_example \<noteq> [] \<and>
   fst (pastePoints DEFAULT_CONFIG paste_example) = Some [2, 3] \<and>
   map (heap (snd (pastePoints DEFAULT_CONFIG paste_example))) [2, 3] =
     [\<lparr>time = 3, amplitude = 1 / 2\<rparr>, \<lparr>time = 5, amplitude = - (1 / 2)\<rparr>] \<and>
   selectedPoints (snd (pastePoints DEFAULT_CONFIG paste_example)) = [2, 3] \<and>
   heap (snd (pastePoints DEFAULT_CONFIG paste_example)) 0 = heap paste_example 0"
proof -
  have ne: "copiedPoints paste_example \<noteq> []" by (simp add: paste_example_eq)
  have up: "[nextRef paste_example ..< nextRef paste_example + length (copiedPoints paste_example)] = [2, 3]"
    by (simp add: paste_example_eq upt_conv_Cons)
  have anchor: "pasteAnchor paste_example = 3"
    by (simp add: pasteAnchor_def paste_example_eq)
  from pastePoints_anchor [OF ne, of DEFAULT_CONFIG] ne show ?thesis
    unfolding up anchor by (simp add: paste_example_eq)
qed

text \<open>
  C5 as stated fails on an empty sequence: with the clipboard \<open>[(2, 0.5)]\<close> the pasted
  point lands at time 0, not at the clipboard's own first time 2.
\<close>

theorem paste_into_empty_counterexample:
  "points paste_empty_example = [] \<and>
   copiedPoints paste_empty_example = [\<lparr>time = 2, amplitude = 1 / 2\<rparr>] \<and>
   fst (pastePoints DEFAULT_CONFIG paste_empty_example) = Some [1] \<and>
   heap (snd (pastePoints DEFAULT_CONFIG paste_empty_example)) 1 = \<lparr>time = 0, amplitude = 1 / 2\<rparr> \<and>
   time (heap (snd (pastePoints DEFAULT_CONFIG paste_empty_example)) 1)
     \<noteq> time (hd (copiedPoints paste_empty_example))"
  by (simp add: paste_empty_example_def pastePoints_def eval_defs)

section \<open>Dragging a selection\<close>

lemma canMove_iff: "canMove m dx dy ps \<longleftrightarrow> (\<forall>p \<in> set ps. candidateInBounds m dx dy p)"
  by (induction ps) (auto simp: candidateInBounds_def Let_def)

lemma moveEach_heap:
  "distinct ps \<Longrightarrow>
   heap (moveEach dx dy ps m) p = (if p \<in> set ps then translated dx dy (heap m p) else heap m p)"
proof (induction ps arbitrary: m)
  case Nil
  then show ?case by simp
next
  case (Cons q qs)
  then show ?case by (auto simp: translated_def)
qed

text \<open>
  C1. On a canvas of positive size and at a non-zero zoom (so that the deltas are
  finite numbers), when the dragged point belongs to the selection set,
  \<^verbatim>\<open>dragPoints\<close> with the deltas \<open>(dx, dy)\<close> it computes from the previous and the
  current cursor position returns normally and: if any selected point's candidate position lies outside
  \<open>[0, duration] \<times> [-1, 1]\<close>, every object keeps its time and amplitude; otherwise
  every selected point is translated by exactly \<open>(dx, dy)\<close> and no other object changes.
\<close>

theorem group_move_atomic:
  assumes "draggingPoint h = Some d" and "d \<in> set (selectedPoints m)"
    and "distinct (selectedPoints m)"
    and "dx = xToTime c m (offsetX e) - xToTime c m (lastX h)"
    and "dy = yToAmplitude c (offsetY e) - yToAmplitude c (lastY h)"
    and "0 < width c" and "0 < height c" and "zoom m \<noteq> 0"
  shows "\<exists>m'. dragPoints c h e m = Inr m' \<and>
           selectedPoints m' = selectedPoints m \<and>
           ((\<exists>p \<in> set (selectedPoints m). \<not> candidateInBounds m dx dy p) \<longrightarrow> heap m' = heap m) \<and>
           ((\<forall>p \<in> set (selectedPoints m). candidateInBounds m dx dy p) \<longrightarrow>
              (\<forall>p. heap m' p = (if p \<in> set (selectedPoints m) then translated dx dy (heap m p)
                                 else heap m p)))"
proof (cases "canMove m dx dy (selectedPoints m)")
  case True
  let ?m' = "sortPoints (moveEach dx dy (selectedPoints m) m)"
  from True assms(1,2,4,5) have res: "dragPoints c h e m = Inr ?m'"
    by (simp add: dragPoints_def Let_def)
  have "heap ?m' = heap (moveEach dx dy (selectedPoints m) m)"
    by (simp add: sortPoints_def)
  with True res assms(3) show ?thesis
    by (simp add: canMove_iff moveEach_heap sortPoints_def moveEach_fields)
next
  case False
  from False assms(1,2,4,5) have res: "dragPoints c h e m = Inr (sortPoints m)"
    by (simp add: dragPoints_def Let_def)
  from False res show ?thesis
    by (auto simp: canMove_iff sortPoints_def)
qed

text \<open>
  The instance of the specification: A at 0.1 and B at 9.99 with a duration of 10; a
  drag by +0.02 s would push B past 10 and moves nothing, a drag by (-0.02, +0.5) moves both.
\<close>

theorem group_move_atomic_witness:
  "0 < width \<lparr>width = 1000, height = 200\<rparr> \<and> 0 < height \<lparr>width = 1000, height = 200\<rparr> \<and>
   zoom drag_example = 10 \<and> duration drag_example = 10 \<and>
   selectedPoints drag_example = [0, 1] \<and>
   \<not> candidateInBounds drag_example (2 / 100) 0 1 \<and>
   (\<exists>m'. dragPoints \<lparr>width = 1000, height = 200\<rparr>
            \<lparr>draggingPoint = Some 0, lastX = 100, lastY = 100\<rparr>
            \<lparr>offsetX = 120, offsetY = 100\<rparr> drag_example = Inr m' \<and>
         heap m' = heap drag_example) \<and>
   candidateInBounds drag_example (- (2 / 100)) (1 / 2) 0 \<and>
   candidateInBounds drag_example (- (2 / 100)) (1 / 2) 1 \<and>
   (\<exists>m'. dragPoints \<lparr>width = 1000, height = 200\<rparr>
            \<lparr>draggingPoint = Some 0, lastX = 120, lastY = 100\<rparr>
            \<lparr>offsetX = 100, offsetY = 50\<rparr> drag_example = Inr m' \<and>
         map (heap m') [0, 1] =
           [\<lparr>time = 8 / 100, amplitude = 1 / 2\<rparr>, \<lparr>time = 997 / 100, amplitude = 1 / 2\<rparr>])"
proof -
  let ?c = "\<lparr>width = 1000, height = 200\<rparr>"
  let ?h1 = "\<lparr>draggingPoint = Some 0, lastX = 100, lastY = 100\<rparr>"
  let ?e1 = "\<lparr>offsetX = 120, offsetY = 100\<rparr>"
  let ?h2 = "\<lparr>draggingPoint = Some 0, lastX = 120, lastY = 100\<rparr>"
  let ?e2 = "\<lparr>offsetX = 100, offsetY = 50\<rparr>"
  have cw: "0 < width ?c" and ch: "0 < height ?c" by simp_all
  have zm: "zoom drag_example = 10"
    by (simp add: drag_example_def new_DataModel_def DEFAULT_CONFIG_def)
  then have zn: "zoom drag_example \<noteq> 0" by simp
  have sel: "selectedPoints drag_example = [0, 1]" and dur: "duration drag_example = 10"
    and h0: "heap drag_example 0 = \<lparr>time = 1 / 10, amplitude = 0\<rparr>"
    and h1: "heap drag_example (Suc 0) = \<lparr>time = 999 / 100, amplitude = 0\<rparr>"
    by (simp_all add: drag_example_def new_DataModel_def DEFAULT_CONFIG_def)
  have dx1: "2 / 100 = xToTime ?c drag_example (offsetX ?e1) - xToTime ?c drag_example (lastX ?h1)"
    and dx2: "- (2 / 100) = xToTime ?c drag_example (offsetX ?e2) - xToTime ?c drag_example (lastX ?h2)"
    by (simp_all add: xToTime_def visibleRange_def drag_example_def new_DataModel_def DEFAULT_CONFIG_def)
  have dy1: "0 = yToAmplitude ?c (offsetY ?e1) - yToAmplitude ?c (lastY ?h1)"
    and dy2: "1 / 2 = yToAmplitude ?c (offsetY ?e2) - yToAmplitude ?c (lastY ?h2)"
    by (simp_all add: yToAmplitude_def)
  have out: "\<not> candidateInBounds drag_example (2 / 100) 0 1"
    by (simp add: candidateInBounds_def h1 dur)
  have in0: "candidateInBounds drag_example (- (2 / 100)) (1 / 2) 0"
    and in1: "candidateInBounds drag_example (- (2 / 100)) (1 / 2) 1"
    by (simp_all add: candidateInBounds_def h0 h1 dur)
  from group_move_atomic [of ?h1 0 drag_example "2 / 100" ?c ?e1 0, OF _ _ _ dx1 dy1 cw ch zn] out
  have first: "\<exists>m'. dragPoints ?c ?h1 ?e1 drag_example = Inr m' \<and> heap m' = heap drag_example"
    by (auto simp: sel)
  from group_move_atomic [of ?h2 0 drag_example "- (2 / 100)" ?c ?e2 "1 / 2", OF _ _ _ dx2 dy2 cw ch zn] in0 in1
  have "\<exists>m'. dragPoints ?c ?h2 ?e2 drag_example = Inr m' \<and>
          map (heap m') [0, 1] = [translated (- (2 / 100)) (1 / 2) (heap drag_example 0),
                                  translated (- (2 / 100)) (1 / 2) (heap drag_example 1)]"
    by (auto simp: sel)
  then have second: "\<exists>m'. dragPoints ?c ?h2 ?e2 drag_example = Inr m' \<and>
          map (heap m') [0, 1] =
           [\<lparr>time = 8 / 100, amplitude = 1 / 2\<rparr>, \<lparr>time = 997 / 100, amplitude = 1 / 2\<rparr>]"
    by (simp add: translated_def h0 h1)
  from cw ch zm dur sel out first in0 in1 second show ?thesis by blast
qed

section \<open>Coordinate round trip\<close>

text \<open>
  C7. On a canvas of positive size and a view with non-zero duration and zoom, for every
  in-bounds surface coordinate \<open>x\<close> and \<open>y\<close>: \<open>timeToX (xToTime x) = x\<close> and
  \<open>amplitudeToY (yToAmplitude y) = y\<close>; the other compositions are the identity as
  well, so the mappings are mutual inverses. Numbers are reals here, so the equations
  are exact.
\<close>

theorem coordinate_round_trip:
  assumes "0 < width c" and "0 < height c" and "duration m \<noteq> 0" and "zoom m \<noteq> 0"
    and "0 \<le> x" and "x \<le> real (width c)" and "0 \<le> y" and "y \<le> real (height c)"
  shows "timeToX c m (xToTime c m x) = x \<and> amplitudeToY c (yToAmplitude c y) = y \<and>
         xToTime c m (timeToX c m t) = t \<and> yToAmplitude c (amplitudeToY c a) = a"
  using assms
  by (simp add: timeToX_def xToTime_def amplitudeToY_def yToAmplitude_def visibleRange_def field_simps)

theorem coordinate_round_trip_witness:
  "0 < width \<lparr>width = 1000, height = 200\<rparr> \<and> 0 < height \<lparr>width = 1000, height = 200\<rparr> \<and>
   duration (new_DataModel DEFAULT_CONFIG) = 10 \<and> zoom (new_DataModel DEFAULT_CONFIG) = 10 \<and>
   timeToX \<lparr>width = 1000, height = 200\<rparr> (new_DataModel DEFAULT_CONFIG)
     (xToTime \<lparr>width = 1000, height = 200\<rparr> (new_DataModel DEFAULT_CONFIG) 120) = 120 \<and>
   amplitudeToY \<lparr>width = 1000, height = 200\<rparr> (yToAmplitude \<lparr>width = 1000, height = 200\<rparr> 50) = 50 \<and>
   xToTime \<lparr>width = 1000, height = 200\<rparr> (new_DataModel DEFAULT_CONFIG)
     (timeToX \<lparr>width = 1000, height = 200\<rparr> (new_DataModel DEFAULT_CONFIG) (3 / 10)) = 3 / 10 \<and>
   yToAmplitude \<lparr>width = 1000, height = 200\<rparr> (amplitudeToY \<lparr>width = 1000, height = 200\<rparr> (1 / 2)) = 1 / 2"
proof -
  have view: "duration (new_DataModel DEFAULT_CONFIG) = 10" "zoom (new_DataModel DEFAULT_CONFIG) = 10"
    by (simp_all add: new_DataModel_def DEFAULT_CONFIG_def)
  from coordinate_round_trip [of "\<lparr>width = 1000, height = 200\<rparr>" "new_DataModel DEFAULT_CONFIG"
      120 50 "3 / 10" "1 / 2"] view
  show ?thesis by simp
qed

section \<open>Synthesis\<close>

lemma findIndex_ge: "- 1 \<le> findIndex P xs"
  by (induction xs) (auto simp: Let_def)

lemma findIndex_none: "(findIndex P xs = - 1) = (\<forall>x \<in> set xs. \<not> P x)"
proof (induction xs)
  case Nil
  then show ?case by simp
next
  case (Cons x xs)
  from findIndex_ge [of P xs] have "findIndex P xs + 1 \<noteq> - 1" by simp
  with Cons show ?case by (auto simp: Let_def)
qed

lemma findIndex_takeWhile:
  "\<exists>x \<in> set xs. P x \<Longrightarrow> findIndex P xs = int (length (takeWhile (\<lambda>x. \<not> P x) xs))"
proof (induction xs)
  case Nil
  then show ?case by simp
next
  case (Cons x xs)
  show ?case
  proof (cases "P x")
    case True
    then show ?thesis by simp
  next
    case False
    with Cons.prems have ex: "\<exists>y \<in> set xs. P y" by simp
    then have "findIndex P xs \<noteq> - 1" by (simp add: findIndex_none)
    with False Cons.IH [OF ex] show ?thesis by (simp add: Let_def)
  qed
qed

lemma totalTime_alt:
  "totalTime pts dur = (if pts = [] \<or> time (last pts) = 0 then dur else time (last pts))"
proof (cases "pts = []")
  case True
  then show ?thesis by (simp add: totalTime_def arrayGet_def)
next
  case False
  then have "arrayGet pts (int (length pts) - 1) = Some (last pts)"
    by (simp add: arrayGet_def last_conv_nth nat_diff_distrib')
  with False show ?thesis by (simp add: totalTime_def)
qed

lemma arrayGet_nat: "arrayGet xs (int k) = (if k < length xs then Some (xs ! k) else None)"
  by (simp add: arrayGet_def)

lemma sampleAt_spec: "sampleAt sampleRate pts i = specAmplitude pts (real i / sampleRate)"
proof (cases "pts = []")
  case True
  then show ?thesis by (simp add: sampleAt_def specAmplitude_def arrayGet_def Let_def)
next
  case False
  let ?t = "real i / sampleRate"
  let ?P = "\<lambda>p. ?t < time p"
  let ?n = "length pts"
  from False have npos: "0 < ?n" by simp
  show ?thesis
  proof (cases "\<exists>p \<in> set pts. ?P p")
    case None: False
    then have found: "findIndex ?P pts = - 1" by (simp add: findIndex_none)
    from None have later: "dropWhile (\<lambda>p. \<not> ?P p) pts = []" by simp
    have p2: "arrayGet pts (int ?n - 1) = Some (last pts)"
      using False by (simp add: arrayGet_def last_conv_nth nat_diff_distrib')
    show ?thesis
    proof (cases "butlast pts = []")
      case True
      then have one: "?n = 1" using npos by (cases pts) (auto split: if_splits)
      then have p1: "arrayGet pts (max 0 (int ?n - 1 - 1)) = Some (last pts)"
        using False by (simp add: arrayGet_def last_conv_nth)
      show ?thesis
        using False found later True p1 p2
        by (simp add: sampleAt_def specAmplitude_def Let_def)
    next
      case Many: False
      then have two: "2 \<le> ?n" by (cases pts) (auto split: if_splits simp: Suc_le_eq)
      then have idx: "max 0 (int ?n - 1 - 1) = int (?n - 2)" by simp
      have "last (butlast pts) = pts ! (?n - 2)"
        using Many two by (simp add: last_conv_nth nth_butlast numeral_2_eq_2)
      then have p1: "arrayGet pts (max 0 (int ?n - 1 - 1)) = Some (last (butlast pts))"
        using two by (simp only: idx arrayGet_nat) simp
      show ?thesis
        using False found later Many p1 p2
        by (simp add: sampleAt_def specAmplitude_def Let_def)
    qed
  next
    case Some: True
    let ?k = "length (takeWhile (\<lambda>p. \<not> ?P p) pts)"
    from Some have found: "findIndex ?P pts = int ?k" by (rule findIndex_takeWhile)
    from Some have later: "dropWhile (\<lambda>p. \<not> ?P p) pts \<noteq> []" by auto
    have "length (takeWhile (\<lambda>p. \<not> ?P p) pts @ dropWhile (\<lambda>p. \<not> ?P p) pts) = ?n"
      by (simp only: takeWhile_dropWhile_id)
    moreover from later have "0 < length (dropWhile (\<lambda>p. \<not> ?P p) pts)"
      by (cases "dropWhile (\<lambda>p. \<not> ?P p) pts") (simp_all del: dropWhile_eq_Nil_conv)
    ultimately have klt: "?k < ?n" by (simp only: length_append)
    have hd: "hd (dropWhile (\<lambda>p. \<not> ?P p) pts) = pts ! ?k"
      using later by (simp add: dropWhile_eq_drop hd_drop_conv_nth klt)
    have p2: "arrayGet pts (int ?k) = Some (hd (dropWhile (\<lambda>p. \<not> ?P p) pts))"
      using klt hd by (simp add: arrayGet_nat)
    have neg: "int ?k \<noteq> - 1" by simp
    show ?thesis
    proof (cases "takeWhile (\<lambda>p. \<not> ?P p) pts = []")
      case True
      then have k0: "?k = 0" by simp
      have p1: "arrayGet pts (max 0 (int ?k - 1)) = Some (hd (dropWhile (\<lambda>p. \<not> ?P p) pts))"
        using p2 by (simp add: k0)
      show ?thesis
        using False later True p1 p2 neg
        by (simp add: sampleAt_def specAmplitude_def Let_def found del: dropWhile_eq_Nil_conv)
    next
      case Pre: False
      then have kpos: "0 < ?k" by simp
      then have idx: "max 0 (int ?k - 1) = int (?k - 1)" by arith
      have "last (takeWhile (\<lambda>p. \<not> ?P p) pts) = pts ! (?k - 1)"
        using Pre kpos by (simp add: last_conv_nth takeWhile_nth)
      then have p1: "arrayGet pts (max 0 (int ?k - 1)) = Some (last (takeWhile (\<lambda>p. \<not> ?P p) pts))"
        using klt kpos by (simp only: idx arrayGet_nat) simp
      show ?thesis
        using False later Pre p1 p2 neg
        by (simp add: sampleAt_def specAmplitude_def Let_def found
              del: dropWhile_eq_Nil_conv takeWhile_eq_Nil_iff)
    qed
  qed
qed

lemma generateBuffer_cases:
  "(bufferLength sampleRate pts dur < 1 \<longrightarrow> generateBuffer sampleRate pts dur = Inl NotSupportedError) \<and>
   (1 \<le> bufferLength sampleRate pts dur \<longrightarrow>
      generateBuffer sampleRate pts dur =
        Inr (map (sampleAt sampleRate pts) [0 ..< nat (bufferLength sampleRate pts dur)]))"
  by (simp add: generateBuffer_def Let_def)

lemma generateBuffer_nth:
  assumes "generateBuffer sampleRate pts dur = Inr buf" and "i < length buf"
  shows "buf ! i = sampleAt sampleRate pts i"
proof -
  from assms(1) have "buf = map (sampleAt sampleRate pts) [0 ..< nat (bufferLength sampleRate pts dur)]"
    by (simp add: generateBuffer_def Let_def split: if_splits)
  with assms(2) show ?thesis by simp
qed

lemma ramp_samples:
  "sampleAt 4 ramp 0 = 0" "sampleAt 4 ramp (Suc 0) = 1 / 4" "sampleAt 4 ramp 2 = 1 / 2"
  "sampleAt 4 ramp 3 = 3 / 4" "sampleAt 4 ramp 4 = 1" "sampleAt 4 ramp 8 = 2"
  by (simp_all add: sampleAt_def ramp_def arrayGet_def Let_def)

lemma ramp_length: "bufferLength 4 ramp dur = 4"
  by (simp add: bufferLength_def totalTime_alt ramp_def)

lemma ramp_buffer: "generateBuffer 4 ramp dur = Inr [0, 1 / 4, 1 / 2, 3 / 4]"
proof -
  have "[0 ..< nat 4] = [0, 1, 2, 3]" by (simp add: upt_conv_Cons)
  then show ?thesis
    by (simp add: generateBuffer_def Let_def ramp_length ramp_samples)
qed

lemma spec_before_first:
  "pts \<noteq> [] \<Longrightarrow> t < time (hd pts) \<Longrightarrow> specAmplitude pts t = amplitude (hd pts)"
  by (cases pts) (simp_all add: specAmplitude_def Let_def)

text \<open>
  C2, as the code has it. The buffer length is \<open>ceil(sampleRate * T)\<close>, where \<open>T\<close> is
  the time of the last point when the sequence is not empty and that time is not zero,
  and the duration otherwise; \<^verbatim>\<open>generateBuffer\<close> returns a buffer of exactly that
  length when it is at least one, and throws otherwise. For an empty sequence the
  length is \<open>ceil(sampleRate * duration)\<close>, and the specification's formula with the
  maximum holds when the last point's time is non-zero and not below the duration.
\<close>

theorem generateBuffer_length:
  "bufferLength sampleRate pts dur =
     \<lceil>sampleRate * (if pts = [] \<or> time (last pts) = 0 then dur else time (last pts))\<rceil> \<and>
   (bufferLength sampleRate pts dur < 1 \<longrightarrow>
      generateBuffer sampleRate pts dur = Inl NotSupportedError) \<and>
   (1 \<le> bufferLength sampleRate pts dur \<longrightarrow>
      (\<exists>buf. generateBuffer sampleRate pts dur = Inr buf \<and>
             int (length buf) = bufferLength sampleRate pts dur)) \<and>
   (pts = [] \<longrightarrow> bufferLength sampleRate pts dur = \<lceil>sampleRate * dur\<rceil>) \<and>
   (pts \<noteq> [] \<and> time (last pts) \<noteq> 0 \<and> dur \<le> time (last pts) \<longrightarrow>
      bufferLength sampleRate pts dur = claimedBufferLength sampleRate pts dur)"
proof -
  have len: "bufferLength sampleRate pts dur =
     \<lceil>sampleRate * (if pts = [] \<or> time (last pts) = 0 then dur else time (last pts))\<rceil>"
    by (simp only: bufferLength_def totalTime_alt)
  have ok: "1 \<le> bufferLength sampleRate pts dur \<longrightarrow>
      (\<exists>buf. generateBuffer sampleRate pts dur = Inr buf \<and>
             int (length buf) = bufferLength sampleRate pts dur)"
    using generateBuffer_cases [of sampleRate pts dur] by simp
  have agree: "pts \<noteq> [] \<and> time (last pts) \<noteq> 0 \<and> dur \<le> time (last pts) \<longrightarrow>
      bufferLength sampleRate pts dur = claimedBufferLength sampleRate pts dur"
    by (simp add: len claimedBufferLength_def max_def)
  have emp: "pts = [] \<longrightarrow> bufferLength sampleRate pts dur = \<lceil>sampleRate * dur\<rceil>"
    by (simp add: bufferLength_def totalTime_alt)
  have bad: "bufferLength sampleRate pts dur < 1 \<longrightarrow>
      generateBuffer sampleRate pts dur = Inl NotSupportedError"
    using generateBuffer_cases [of sampleRate pts dur] by blast
  from len bad ok emp agree show ?thesis by blast
qed

theorem generateBuffer_length_witness:
  "bufferLength 4 [] 10 = 40 \<and>
   (\<exists>buf. generateBuffer 4 [] 10 = Inr buf \<and> int (length buf) = 40) \<and>
   ramp \<noteq> [] \<and> time (last ramp) \<noteq> 0 \<and> 1 / 2 \<le> time (last ramp) \<and>
   bufferLength 4 ramp (1 / 2) = claimedBufferLength 4 ramp (1 / 2) \<and>
   bufferLength 4 [\<lparr>time = - 1, amplitude = 0\<rparr>] 10 < 1 \<and>
   generateBuffer 4 [\<lparr>time = - 1, amplitude = 0\<rparr>] 10 = Inl NotSupportedError"
proof -
  have e: "bufferLength 4 [] 10 = 40" by (simp add: bufferLength_def totalTime_alt)
  have r: "ramp \<noteq> []" "time (last ramp) \<noteq> 0" "1 / 2 \<le> time (last ramp)"
    by (simp_all add: ramp_def)
  have n: "bufferLength 4 [\<lparr>time = - 1, amplitude = 0\<rparr>] 10 < 1"
    by (simp add: bufferLength_def totalTime_alt)
  from generateBuffer_length [of 4 "[]" 10] e
  have a: "\<exists>buf. generateBuffer 4 [] 10 = Inr buf \<and> int (length buf) = 40" by simp
  from generateBuffer_length [of 4 ramp "1 / 2"] r
  have b: "bufferLength 4 ramp (1 / 2) = claimedBufferLength 4 ramp (1 / 2)" by blast
  from generateBuffer_length [of 4 "[\<lparr>time = - 1, amplitude = 0\<rparr>]" 10] n
  have c: "generateBuffer 4 [\<lparr>time = - 1, amplitude = 0\<rparr>] 10 = Inl NotSupportedError" by blast
  from e a r b n c show ?thesis by blast
qed

text \<open>
  C2 as stated fails: one point at time 1 with a duration of 10 at sample rate 4 gives
  four samples, where the formula with the maximum gives 40.
\<close>

theorem buffer_length_counterexample:
  "generateBuffer 4 [\<lparr>time = 1, amplitude = 0\<rparr>] 10 = Inr [0, 0, 0, 0] \<and>
   claimedBufferLength 4 [\<lparr>time = 1, amplitude = 0\<rparr>] 10 = 40"
proof -
  have "[0 ..< nat 4] = [0, 1, 2, 3]" by (simp add: upt_conv_Cons)
  then show ?thesis
    by (simp add: generateBuffer_def bufferLength_def totalTime_alt claimedBufferLength_def
          sampleAt_def arrayGet_def Let_def)
qed

text \<open>
  C3, as the code has it. For every sequence and every index \<open>i\<close>, the loop body
  yields the specification's amplitude at \<open>t = i / sampleRate\<close>, and so does every
  sample of a generated buffer: zero for an empty sequence, the first point's amplitude
  before the first point, the line through \<open>p1\<close> and \<open>p2\<close> when their times differ
  (an extrapolation of the last segment when no point is later than \<open>t\<close>), and
  \<open>p1\<close>'s amplitude otherwise. For the points (0, 0) and (1, 1) at sample rate 4 the
  buffer is exactly the four samples 0, 0.25, 0.5, 0.75.
\<close>

theorem sample_piecewise_linear:
  "sampleAt sampleRate pts i = specAmplitude pts (real i / sampleRate) \<and>
   (generateBuffer sampleRate pts dur = Inr buf \<and> i < length buf \<longrightarrow>
      buf ! i = specAmplitude pts (real i / sampleRate)) \<and>
   sampleAt sampleRate [] i = 0 \<and>
   (pts \<noteq> [] \<and> real i / sampleRate < time (hd pts) \<longrightarrow>
      sampleAt sampleRate pts i = amplitude (hd pts)) \<and>
   generateBuffer 4 ramp dur = Inr [0, 1 / 4, 1 / 2, 3 / 4]"
  using generateBuffer_nth [of sampleRate pts dur buf i]
  by (simp add: sampleAt_spec ramp_buffer spec_before_first) (simp add: specAmplitude_def)

theorem sample_piecewise_linear_witness:
  "generateBuffer 4 ramp 10 = Inr [0, 1 / 4, 1 / 2, 3 / 4] \<and>
   [0, 1 / 4, 1 / 2, 3 / 4] ! 2 = specAmplitude ramp (real 2 / 4) \<and>
   specAmplitude ramp (real 2 / 4) = 1 / 2 \<and>
   real 0 / 4 < time (hd [\<lparr>time = 1, amplitude = 1 / 2\<rparr>]) \<and>
   sampleAt 4 [\<lparr>time = 1, amplitude = 1 / 2\<rparr>] 0 = amplitude (hd [\<lparr>time = 1, amplitude = 1 / 2\<rparr>])"
proof -
  have buf: "generateBuffer 4 ramp 10 = Inr [0, 1 / 4, 1 / 2, 3 / 4]" by (rule ramp_buffer)
  from sample_piecewise_linear [of 4 ramp 2 10 "[0, 1 / 4, 1 / 2, 3 / 4]"] buf
  have a: "[0, 1 / 4, 1 / 2, 3 / 4] ! 2 = specAmplitude ramp (real 2 / 4)" by simp
  then have b: "specAmplitude ramp (real 2 / 4) = 1 / 2" by simp
  have c: "real 0 / 4 < time (hd [\<lparr>time = 1, amplitude = 1 / 2\<rparr>])" by simp
  have ne: "[\<lparr>time = 1, amplitude = 1 / 2 :: real\<rparr>] \<noteq> []" by simp
  from sample_piecewise_linear [of 4 "[\<lparr>time = 1, amplitude = 1 / 2\<rparr>]" 0 10 "[]"] c ne
  have d: "sampleAt 4 [\<lparr>time = 1, amplitude = 1 / 2\<rparr>] 0 = amplitude (hd [\<lparr>time = 1, amplitude = 1 / 2\<rparr>])"
    by blast
  from buf a b c d show ?thesis by blast
qed

text \<open>
  C3 as stated fails on its example: the buffer for (0, 0), (1, 1) at sample rate 4 has
  four samples, so there is no sample at \<open>t = 1.0\<close>; and past the last point the loop
  body does not yield a point's amplitude but extrapolates (2 at \<open>t = 2.0\<close>).
\<close>

theorem ramp_samples_counterexample:
  "generateBuffer 4 ramp 10 = Inr [0, 1 / 4, 1 / 2, 3 / 4] \<and>
   generateBuffer 4 ramp 10 \<noteq> Inr [0, 1 / 4, 1 / 2, 3 / 4, 1] \<and>
   sampleAt 4 ramp 8 = 2 \<and>
   sampleAt 4 ramp 8 \<notin> set (map amplitude ramp)"
  by (simp add: ramp_buffer ramp_samples) (simp add: ramp_def)

section \<open>16-bit PCM samples\<close>

lemma scaledSample_range: "- 32768 \<le> scaledSample x \<and> scaledSample x \<le> 32767"
  by (auto simp: scaledSample_def Let_def max_def min_def)

lemma pcm16_floor: "pcm16 x = \<lfloor>scaledSample x\<rfloor>"
  by (simp add: pcm16_def scaledSample_def Let_def)

lemma pcm16_range: "- 32768 \<le> pcm16 x \<and> pcm16 x \<le> 32767"
proof -
  from scaledSample_range [of x] have "- 32768 \<le> \<lfloor>scaledSample x\<rfloor>" "\<lfloor>scaledSample x\<rfloor> \<le> 32767"
    by (simp_all add: le_floor_iff floor_le_iff)
  then show ?thesis by (simp add: pcm16_floor)
qed

lemma sint16_of_int: "- 32768 \<le> v \<Longrightarrow> v \<le> 32767 \<Longrightarrow> sint (word_of_int v :: 16 word) = v"
  by (simp add: sint_sbintrunc' signed_take_bit_int_eq_self)

lemma lo_byte: "(ucast (word_of_int v :: 16 word) :: 8 word) = word_of_int (v mod 256)"
proof -
  have "(ucast (word_of_int v :: 16 word) :: 8 word) = word_of_int (take_bit 16 v)"
    by (simp add: unsigned_of_int)
  also have "\<dots> = word_of_int v"
    by (rule bit_word_eqI) (auto simp: bit_simps)
  also have "\<dots> = word_of_int (take_bit 8 v)"
    by (rule bit_word_eqI) (auto simp: bit_simps)
  finally show ?thesis by (simp add: take_bit_eq_mod)
qed

lemma hi_byte: "(ucast (drop_bit 8 (word_of_int v :: 16 word)) :: 8 word) = word_of_int (v div 256 mod 256)"
proof -
  have "(ucast (drop_bit 8 (word_of_int v :: 16 word)) :: 8 word) = word_of_int (take_bit 8 (drop_bit 8 v))"
    by (rule bit_word_eqI) (auto simp: bit_simps)
  then show ?thesis by (simp add: take_bit_eq_mod drop_bit_eq_div)
qed

lemma setInt16_le_bytes:
  "setInt16_le v = [word_of_int (v mod 256), word_of_int (v div 256 mod 256)]"
  by (simp add: setInt16_le_def Let_def lo_byte hi_byte)

lemma wavSamples_at:
  "i < length xs \<Longrightarrow> take 2 (drop (2 * i) (wavSamples xs)) = setInt16_le (pcm16 (xs ! i))"
proof (induction xs arbitrary: i)
  case Nil
  then show ?case by simp
next
  case (Cons x xs)
  have len: "length (setInt16_le (pcm16 x)) = 2" by (simp add: setInt16_le_def Let_def)
  show ?case
  proof (cases i)
    case 0
    then show ?thesis using len by (simp add: wavSamples_def)
  next
    case (Suc j)
    with Cons.prems have "j < length xs" by simp
    from Cons.IH [OF this] Suc len show ?thesis by (simp add: wavSamples_def)
  qed
qed

text \<open>
  C9, as the code has it. Every sample is clamped to \<open>[-1, 1]\<close>, multiplied by 32768
  if negative and by 32767 otherwise, and rounded down (\<^verbatim>\<open>Math.floor\<close>); the result
  lies in the signed 16-bit range, so \<^verbatim>\<open>setInt16\<close> stores it unchanged, low byte
  first, at offset \<open>2 * i\<close> of the sample data. Rounding down is truncation toward
  zero for a non-negative sample and for an integral product; for a negative sample
  with a fractional product it is one less.
\<close>

theorem pcm16_sample_bytes:
  "pcm16 x = \<lfloor>scaledSample x\<rfloor> \<and> - 32768 \<le> pcm16 x \<and> pcm16 x \<le> 32767 \<and>
   sint (word_of_int (pcm16 x) :: 16 word) = pcm16 x \<and>
   setInt16_le (pcm16 x) = [word_of_int (pcm16 x mod 256), word_of_int (pcm16 x div 256 mod 256)] \<and>
   (i < length xs \<longrightarrow> take 2 (drop (2 * i) (wavSamples xs)) = setInt16_le (pcm16 (xs ! i))) \<and>
   (0 \<le> x \<or> scaledSample x \<in> \<int> \<longrightarrow> pcm16 x = claimed_pcm16 x) \<and>
   (x < 0 \<and> scaledSample x \<notin> \<int> \<longrightarrow> pcm16 x = claimed_pcm16 x - 1)"
proof -
  have nonneg: "0 \<le> x \<Longrightarrow> 0 \<le> scaledSample x"
    by (auto simp: scaledSample_def Let_def max_def min_def)
  have neg: "x < 0 \<Longrightarrow> scaledSample x < 0"
    by (auto simp: scaledSample_def Let_def max_def min_def)
  have a: "0 \<le> x \<or> scaledSample x \<in> \<int> \<longrightarrow> pcm16 x = claimed_pcm16 x"
    using nonneg by (auto simp: pcm16_floor claimed_pcm16_def truncTowardZero_def Ints_def)
  have b: "x < 0 \<and> scaledSample x \<notin> \<int> \<longrightarrow> pcm16 x = claimed_pcm16 x - 1"
  proof
    assume h: "x < 0 \<and> scaledSample x \<notin> \<int>"
    then have "scaledSample x \<noteq> of_int \<lfloor>scaledSample x\<rfloor>" by (metis Ints_of_int)
    then have "\<lceil>scaledSample x\<rceil> = \<lfloor>scaledSample x\<rfloor> + 1" by (simp add: ceiling_altdef)
    with h neg show "pcm16 x = claimed_pcm16 x - 1"
      by (simp add: pcm16_floor claimed_pcm16_def truncTowardZero_def)
  qed
  from pcm16_range [of x] have "sint (word_of_int (pcm16 x) :: 16 word) = pcm16 x"
    by (simp add: sint16_of_int)
  with a b pcm16_range [of x] show ?thesis
    by (simp add: pcm16_floor [symmetric] setInt16_le_bytes wavSamples_at)
qed

lemma pcm16_half: "pcm16 (1 / 2) = 16383"
  by (simp add: pcm16_def Let_def floor_eq_iff)

lemma scaled_tiny: "scaledSample (- (1 / 65536)) = - (1 / 2)"
  by (simp add: scaledSample_def Let_def)

lemma pcm16_tiny: "pcm16 (- (1 / 65536)) = - 1"
  by (simp add: pcm16_floor scaled_tiny floor_eq_iff)

lemma claimed_tiny: "claimed_pcm16 (- (1 / 65536)) = 0"
  by (simp add: claimed_pcm16_def truncTowardZero_def scaled_tiny ceiling_eq_iff)

lemma half_not_int: "- (1 / 2 :: real) \<notin> \<int>"
proof
  assume "- (1 / 2 :: real) \<in> \<int>"
  then obtain k :: int where "- (1 / 2 :: real) = of_int k" by (auto simp: Ints_def)
  then have "of_int (2 * k) = (- 1 :: real)" by simp
  then have "2 * k = - 1" by (metis of_int_eq_iff of_int_minus of_int_1)
  then show False by presburger
qed

theorem pcm16_sample_bytes_witness:
  "pcm16 (1 / 2) = claimed_pcm16 (1 / 2) \<and> pcm16 (1 / 2) = 16383 \<and>
   setInt16_le (pcm16 (1 / 2)) = [255, 63] \<and>
   take 2 (drop (2 * 1) (wavSamples [0, 1 / 2])) = [255, 63] \<and>
   scaledSample (- (1 / 65536)) \<notin> \<int> \<and>
   pcm16 (- (1 / 65536)) = claimed_pcm16 (- (1 / 65536)) - 1"
proof -
  note inst = pcm16_sample_bytes [of "1 / 2" 1 "[0, 1 / 2]"]
  have a: "pcm16 (1 / 2) = claimed_pcm16 (1 / 2)"
    using inst by simp
  have b: "setInt16_le (pcm16 (1 / 2)) = [word_of_int (pcm16 (1 / 2) mod 256), word_of_int (pcm16 (1 / 2) div 256 mod 256)]"
    using inst by blast
  have c: "take 2 (drop (2 * 1) (wavSamples [0, 1 / 2])) = setInt16_le (pcm16 (1 / 2))"
    using inst by simp
  have n: "scaledSample (- (1 / 65536)) \<notin> \<int>" by (simp only: scaled_tiny half_not_int not_False_eq_True)
  have neg: "- (1 / 65536 :: real) < 0" by simp
  from pcm16_sample_bytes [of "- (1 / 65536)" 0 "[]"] n neg
  have d: "pcm16 (- (1 / 65536)) = claimed_pcm16 (- (1 / 65536)) - 1" by blast
  from b have b': "setInt16_le (pcm16 (1 / 2)) = [255, 63]" by (simp add: pcm16_half)
  from a b' c n d show ?thesis by (simp add: pcm16_half)
qed

text \<open>
  C9 as stated fails: the sample \<open>-1/65536\<close> scales to \<open>-0.5\<close>, which the code
  rounds down to \<open>-1\<close> (bytes FF FF) where truncation toward zero gives 0 (bytes 00 00).
\<close>

theorem pcm16_floor_counterexample:
  "pcm16 (- (1 / 65536)) = - 1 \<and> claimed_pcm16 (- (1 / 65536)) = 0 \<and>
   setInt16_le (pcm16 (- (1 / 65536))) = [255, 255] \<and>
   setInt16_le (claimed_pcm16 (- (1 / 65536))) = [0, 0]"
  by (simp add: pcm16_tiny claimed_tiny setInt16_le_bytes)

section \<open>JSON import\<close>

lemma unaryPlus_plain: "plainValue v \<Longrightarrow> \<exists>n. unaryPlus coerce v = Inr n"
  by (auto simp: plainValue_def unaryPlus_def split: option.splits json.splits)

lemma importEntry_plain: "plainEntry p \<Longrightarrow> \<exists>q. importEntry coerce p = Inr q"
proof (cases p)
  case (JObj kvs)
  assume "plainEntry p"
  with JObj have t: "plainValue (map_of kvs ''time'')" and a: "plainValue (map_of kvs ''amplitude'')"
    by (simp_all add: plainEntry_def)
  from unaryPlus_plain [OF t, of coerce] obtain tn where tn: "unaryPlus coerce (map_of kvs ''time'') = Inr tn" ..
  from unaryPlus_plain [OF a, of coerce] obtain an where an: "unaryPlus coerce (map_of kvs ''amplitude'') = Inr an" ..
  from JObj tn an show ?thesis by (simp add: importEntry_def getProp_def)
qed (simp_all add: plainEntry_def)

lemma importEntries_plain:
  "\<forall>p \<in> set ps. plainEntry p \<Longrightarrow> \<exists>qs. importEntries coerce ps = Inr qs \<and> length qs = length ps"
proof (induction ps)
  case Nil
  then show ?case by simp
next
  case (Cons p ps)
  then obtain qs where qs: "importEntries coerce ps = Inr qs" "length qs = length ps" by auto
  from Cons.prems importEntry_plain [of p coerce] obtain q where "importEntry coerce p = Inr q" by auto
  with qs show ?case by simp
qed

lemma importEntries_Inl:
  "importEntries coerce ps = Inl err \<Longrightarrow> \<exists>p \<in> set ps. importEntry coerce p = Inl err"
  by (induction ps arbitrary: err) (auto split: sum.splits)

lemma importEntries_Inr:
  "importEntries coerce ps = Inr qs \<Longrightarrow> map (importEntry coerce) ps = map Inr qs"
  by (induction ps arbitrary: qs) (auto split: sum.splits)

lemma saveState_module_fields:
  "module_points (saveState_module st) = module_points st \<and>
   module_copiedPoints (saveState_module st) = module_copiedPoints st \<and>
   module_redoStack (saveState_module st) = [] \<and>
   module_undoStack (saveState_module st) =
     (if length (module_undoStack st) < 100
      then module_undoStack st @ [stringifyPoints (module_points st)]
      else tl (module_undoStack st @ [stringifyPoints (module_points st)]))"
  by (simp add: saveState_module_def Let_def)

text \<open>
  C6, as the code has it. A failed import leaves the store unchanged. The import
  succeeds exactly when the text parses to an array and every entry converts; it then
  replaces the sequence by the converted entries, keeps the clipboard, pushes a snapshot
  of the new sequence (at most 100 are kept) and clears the redo stack. A failure inside
  the array comes from an entry whose conversion throws. Entries whose time and
  amplitude are absent, null, boolean or numbers, finite or not, never fail: they are
  imported as they convert.
\<close>

theorem import_all_or_nothing:
  "(fst (importFromJSON coerce parsed st) = Failed \<longrightarrow> snd (importFromJSON coerce parsed st) = st) \<and>
   (fst (importFromJSON coerce parsed st) = Imported \<longleftrightarrow>
      (\<exists>ps qs. parsed = Some (JArr ps) \<and> importEntries coerce ps = Inr qs)) \<and>
   (parsed = Some (JArr ps) \<and> importEntries coerce ps = Inr qs \<longrightarrow>
      map (importEntry coerce) ps = map Inr qs \<and>
      module_points (snd (importFromJSON coerce parsed st)) = qs \<and>
      module_copiedPoints (snd (importFromJSON coerce parsed st)) = module_copiedPoints st \<and>
      module_redoStack (snd (importFromJSON coerce parsed st)) = [] \<and>
      module_undoStack (snd (importFromJSON coerce parsed st)) =
        (if length (module_undoStack st) < 100
         then module_undoStack st @ [stringifyPoints qs]
         else tl (module_undoStack st @ [stringifyPoints qs]))) \<and>
   (parsed = Some (JArr ps) \<and> importEntries coerce ps = Inl err \<longrightarrow>
      (\<exists>p \<in> set ps. importEntry coerce p = Inl err)) \<and>
   (parsed = Some (JArr ps) \<and> (\<forall>p \<in> set ps. plainEntry p) \<longrightarrow>
      fst (importFromJSON coerce parsed st) = Imported)"
proof -
  have a: "fst (importFromJSON coerce parsed st) = Failed \<longrightarrow> snd (importFromJSON coerce parsed st) = st"
    by (auto simp: importFromJSON_def split: option.splits json.splits sum.splits)
  have b: "fst (importFromJSON coerce parsed st) = Imported \<longleftrightarrow>
      (\<exists>ps qs. parsed = Some (JArr ps) \<and> importEntries coerce ps = Inr qs)"
    by (auto simp: importFromJSON_def split: option.splits json.splits sum.splits)
  have c: "parsed = Some (JArr ps) \<and> importEntries coerce ps = Inr qs \<longrightarrow>
      map (importEntry coerce) ps = map Inr qs \<and>
      module_points (snd (importFromJSON coerce parsed st)) = qs \<and>
      module_copiedPoints (snd (importFromJSON coerce parsed st)) = module_copiedPoints st \<and>
      module_redoStack (snd (importFromJSON coerce parsed st)) = [] \<and>
      module_undoStack (snd (importFromJSON coerce parsed st)) =
        (if length (module_undoStack st) < 100
         then module_undoStack st @ [stringifyPoints qs]
         else tl (module_undoStack st @ [stringifyPoints qs]))"
    by (auto simp: importFromJSON_def saveState_module_fields importEntries_Inr)
  have d: "parsed = Some (JArr ps) \<and> importEntries coerce ps = Inl err \<longrightarrow>
      (\<exists>p \<in> set ps. importEntry coerce p = Inl err)"
    by (auto dest: importEntries_Inl)
  have e: "parsed = Some (JArr ps) \<and> (\<forall>p \<in> set ps. plainEntry p) \<longrightarrow>
      fst (importFromJSON coerce parsed st) = Imported"
    using importEntries_plain [of ps coerce] by (auto simp: importFromJSON_def)
  from a b c d e show ?thesis by blast
qed

lemma nonfinite_import:
  "importFromJSON throwingCoerce nonfinite_payload empty_store =
     (Imported,
      \<lparr>module_points = [\<lparr>time = PosInf, amplitude = Fin 0\<rparr>, \<lparr>time = NaN, amplitude = Fin (1 / 2)\<rparr>],
       module_undoStack =
         [JArr [JObj [(''time'', JNull), (''amplitude'', JNum (Fin 0))],
                JObj [(''time'', JNull), (''amplitude'', JNum (Fin (1 / 2)))]]],
       module_redoStack = [], module_copiedPoints = []\<rparr>)"
  by (simp add: importFromJSON_def nonfinite_payload_def empty_store_def importEntry_def getProp_def
      unaryPlus_def saveState_module_def stringifyPoints_def stringifyNumber_def Let_def)

theorem import_all_or_nothing_witness:
  "fst (importFromJSON throwingCoerce null_entry_payload empty_store) = Failed \<and>
   snd (importFromJSON throwingCoerce null_entry_payload empty_store) = empty_store \<and>
   fst (importFromJSON throwingCoerce None empty_store) = Failed \<and>
   snd (importFromJSON throwingCoerce None empty_store) = empty_store \<and>
   plainEntry (JObj [(''time'', JNum PosInf), (''amplitude'', JNum (Fin 0))]) \<and>
   plainEntry (JObj [(''amplitude'', JNum (Fin (1 / 2)))]) \<and>
   fst (importFromJSON throwingCoerce nonfinite_payload empty_store) = Imported"
proof -
  have f1: "fst (importFromJSON throwingCoerce null_entry_payload empty_store) = Failed"
    by (simp add: importFromJSON_def null_entry_payload_def importEntry_def getProp_def unaryPlus_def)
  have f2: "fst (importFromJSON throwingCoerce None empty_store) = Failed"
    by (simp add: importFromJSON_def)
  have p1: "plainEntry (JObj [(''time'', JNum PosInf), (''amplitude'', JNum (Fin 0))])"
    and p2: "plainEntry (JObj [(''amplitude'', JNum (Fin (1 / 2)))])"
    by (simp_all add: plainEntry_def plainValue_def)
  from import_all_or_nothing [of throwingCoerce null_entry_payload empty_store] f1
  have s1: "snd (importFromJSON throwingCoerce null_entry_payload empty_store) = empty_store" by blast
  from import_all_or_nothing [of throwingCoerce None empty_store] f2
  have s2: "snd (importFromJSON throwingCoerce None empty_store) = empty_store" by blast
  have all: "\<forall>p \<in> set [JObj [(''time'', JNum PosInf), (''amplitude'', JNum (Fin 0))],
                 JObj [(''amplitude'', JNum (Fin (1 / 2)))]]. plainEntry p"
    using p1 p2 by simp
  from import_all_or_nothing [of throwingCoerce nonfinite_payload empty_store
      "[JObj [(''time'', JNum PosInf), (''amplitude'', JNum (Fin 0))],
        JObj [(''amplitude'', JNum (Fin (1 / 2)))]]"] all
  have i: "fst (importFromJSON throwingCoerce nonfinite_payload empty_store) = Imported"
    unfolding nonfinite_payload_def by blast
  from f1 s1 f2 s2 p1 p2 i show ?thesis by blast
qed

text \<open>
  C6 as stated fails: a payload with an infinite time and an entry without a time is
  imported (the missing time becomes NaN), and the store changes.
\<close>

theorem import_nonfinite_counterexample:
  "fst (importFromJSON throwingCoerce nonfinite_payload empty_store) = Imported \<and>
   module_points (snd (importFromJSON throwingCoerce nonfinite_payload empty_store)) =
     [\<lparr>time = PosInf, amplitude = Fin 0\<rparr>, \<lparr>time = NaN, amplitude = Fin (1 / 2)\<rparr>] \<and>
   length (module_undoStack (snd (importFromJSON throwingCoerce nonfinite_payload empty_store))) = 1 \<and>
   snd (importFromJSON throwingCoerce nonfinite_payload empty_store) \<noteq> empty_store"
  by (simp add: nonfinite_import) (simp add: empty_store_def)

end
